theory Spec2Isabelle
  imports Main "HOL-Library.Sublist"
begin

section \<open>Values, state and exceptions\<close>

text \<open>
  The engine of \<^verbatim>\<open>app/core/graph.py\<close> threads a Python dict through node functions.
  The top-level dict is modelled by value, as a map from keys to values; the mutable
  containers stored inside it (lists, nested dicts) live in an explicit heap and are
  referred to by address, so that two dicts holding the same reference share the object.
  A node function receives the live state and the heap, may change both in place, and
  either raises or returns a value. An edge condition is a total predicate, as its
  declared type \<^verbatim>\<open>Callable[[Dict[str, Any]], bool]\<close> says.

  The fields that hold a random identifier or a wall-clock reading (\<^verbatim>\<open>graph_id\<close>,
  \<^verbatim>\<open>run_id\<close>, \<^verbatim>\<open>step_id\<close>, \<^verbatim>\<open>created_at\<close>, \<^verbatim>\<open>timestamp\<close>,
  \<^verbatim>\<open>duration_ms\<close>) are left out, and so is the back-reference from a run to its graph;
  \<^verbatim>\<open>completed_at\<close> is kept, the clock reading being an argument of \<open>execute\<close>.
\<close>

type_synonym addr = nat

datatype pyval = PNone | PBool bool | PInt int | PStr string | PRef addr

type_synonym pydict = "string \<rightharpoonup> pyval"

datatype pyobj = OList "pyval list" | ODict pydict

type_synonym heap = "addr \<rightharpoonup> pyobj"

type_synonym timestamp = nat

text \<open>What a node function returns: a dict, given by its top-level entries, or any other value.\<close>

datatype retval = RDict pydict | RVal pyval

datatype exn =
    ValueError string
  | RuntimeError string
  | KeyError string
  | NodeException string

definition quote :: char where
  "quote = CHR 0x27"

text \<open>
  \<^verbatim>\<open>repr\<close> of a key, as \<^verbatim>\<open>str(KeyError(k))\<close> prints it. Exact for keys made of printable
  ASCII characters; control characters, which Python prints as escapes, are copied.
\<close>

definition py_repr :: "string \<Rightarrow> string" where
  "py_repr s =
     (let q = (if quote \<in> set s \<and> CHR 0x22 \<notin> set s then CHR 0x22 else quote)
      in q # concat (map (\<lambda>c. if c = q \<or> c = CHR 0x5C then [CHR 0x5C, c] else [c]) s) @ [q])"

fun str_exn :: "exn \<Rightarrow> string" where
  "str_exn (ValueError m) = m"
| "str_exn (RuntimeError m) = m"
| "str_exn (KeyError k) = py_repr k"
| "str_exn (NodeException m) = m"

fun str_nat :: "nat \<Rightarrow> string" where
  "str_nat n =
     (if n < 10 then [''0123456789'' ! n]
      else str_nat (n div 10) @ [''0123456789'' ! (n mod 10)])"

declare str_nat.simps [simp del]

definition str_int :: "int \<Rightarrow> string" where
  "str_int i = (if i < 0 then CHR ''-'' # str_nat (nat (- i)) else str_nat (nat i))"

section \<open>The graph\<close>

datatype ExecutionStatus = RUNNING | COMPLETED | FAILED | PAUSED

type_synonym node_fn = "pydict \<times> heap \<Rightarrow> (pydict \<times> heap) \<times> (exn + retval)"

record ExecutionLog =
  node_name :: string
  log_status :: string
  state_snapshot :: pydict
  log_error :: "string option"

record NodeDefinition =
  name :: string
  func :: node_fn
  description :: string

record EdgeDefinition =
  from_node :: string
  to_node :: string
  condition :: "(pydict \<times> heap \<Rightarrow> bool) option"
  edge_description :: string

record Graph =
  graph_name :: string
  nodes :: "string \<rightharpoonup> NodeDefinition"
  edges :: "EdgeDefinition list"
  entry_point :: "string option"

definition Graph_init :: "string \<Rightarrow> Graph" where
  "Graph_init nm = \<lparr>graph_name = nm, nodes = Map.empty, edges = [], entry_point = None\<rparr>"

text \<open>
  The mutating methods return the graph as the call leaves it, and the exception raised,
  if any: an exception does not by itself undo what was written before it.
\<close>

definition add_node :: "Graph \<Rightarrow> string \<Rightarrow> node_fn \<Rightarrow> string \<Rightarrow> Graph \<times> exn option" where
  "add_node g nm f d =
     (if nm \<in> dom (nodes g)
      then (g, Some (ValueError (''Node '' @ [quote] @ nm @ [quote] @ '' already exists'')))
      else
        (let g1 = g\<lparr>nodes := (nodes g)(nm \<mapsto> \<lparr>name = nm, func = f, description = d\<rparr>)\<rparr>
         in (if entry_point g1 = None then g1\<lparr>entry_point := Some nm\<rparr> else g1, None)))"

definition add_edge ::
  "Graph \<Rightarrow> string \<Rightarrow> string \<Rightarrow> (pydict \<times> heap \<Rightarrow> bool) option \<Rightarrow> string \<Rightarrow> Graph \<times> exn option" where
  "add_edge g src dst c d =
     (if src \<notin> dom (nodes g)
      then (g, Some (ValueError (''Source node '' @ [quote] @ src @ [quote] @ '' does not exist'')))
      else if dst \<notin> dom (nodes g)
      then (g, Some (ValueError (''Destination node '' @ [quote] @ dst @ [quote] @ '' does not exist'')))
      else (g\<lparr>edges := edges g @
                [\<lparr>from_node = src, to_node = dst, condition = c, edge_description = d\<rparr>]\<rparr>, None))"

definition set_entry_point :: "Graph \<Rightarrow> string \<Rightarrow> Graph \<times> exn option" where
  "set_entry_point g nm =
     (if nm \<notin> dom (nodes g)
      then (g, Some (ValueError (''Node '' @ [quote] @ nm @ [quote] @ '' does not exist'')))
      else (g\<lparr>entry_point := Some nm\<rparr>, None))"

text \<open>The \<^verbatim>\<open>for edge in self.edges\<close> loop of \<^verbatim>\<open>get_next_nodes\<close>, with its accumulator.\<close>

fun next_nodes_loop :: "EdgeDefinition list \<Rightarrow> string \<Rightarrow> pydict \<times> heap \<Rightarrow> string list \<Rightarrow> string list" where
  "next_nodes_loop [] cur st next_nodes = next_nodes"
| "next_nodes_loop (edge # es) cur st next_nodes =
     (if from_node edge = cur
      then (case condition edge of
              None \<Rightarrow> next_nodes_loop es cur st (next_nodes @ [to_node edge])
            | Some c \<Rightarrow>
                if c st then next_nodes_loop es cur st (next_nodes @ [to_node edge])
                else next_nodes_loop es cur st next_nodes)
      else next_nodes_loop es cur st next_nodes)"

definition get_next_nodes :: "Graph \<Rightarrow> string \<Rightarrow> pydict \<times> heap \<Rightarrow> string list" where
  "get_next_nodes g current_node st = next_nodes_loop (edges g) current_node st []"

definition validate :: "Graph \<Rightarrow> bool \<times> string" where
  "validate g =
     (if nodes g = Map.empty then (False, ''Graph has no nodes'')
      else case entry_point g of
             None \<Rightarrow> (False, ''No entry point set'')
           | Some ep \<Rightarrow>
               if ep \<notin> dom (nodes g)
               then (False, ''Entry point '' @ [quote] @ ep @ [quote] @ '' does not exist'')
               else (True, ''''))"

section \<open>Runs and the executor\<close>

record WorkflowRun =
  state :: pydict
  status :: ExecutionStatus
  logs :: "ExecutionLog list"
  completed_at :: "timestamp option"
  error :: "string option"
  visited_nodes :: "string list"

text \<open>\<^verbatim>\<open>self.state = initial_state.copy()\<close>: a new top-level dict with the caller's entries.\<close>

definition WorkflowRun_init :: "pydict \<Rightarrow> WorkflowRun" where
  "WorkflowRun_init initial_state =
     \<lparr>state = initial_state, status = RUNNING, logs = [], completed_at = None,
      error = None, visited_nodes = []\<rparr>"

record WorkflowExecutor =
  graph :: Graph
  run :: "WorkflowRun option"

definition WorkflowExecutor_init :: "Graph \<Rightarrow> WorkflowExecutor" where
  "WorkflowExecutor_init g = \<lparr>graph = g, run = None\<rparr>"

definition MAX_ITERATIONS :: int where
  "MAX_ITERATIONS = 1000"

text \<open>\<^verbatim>\<open>max_iterations or self.MAX_ITERATIONS\<close>: the default replaces every falsy argument.\<close>

definition or_default :: "int option \<Rightarrow> int \<Rightarrow> int" where
  "or_default max_iterations dflt =
     (case max_iterations of None \<Rightarrow> dflt | Some n \<Rightarrow> if n = 0 then dflt else n)"

text \<open>The truth value of \<^verbatim>\<open>current_node\<close> in the loop test: \<^verbatim>\<open>None\<close> and the empty string are falsy.\<close>

definition name_truthy :: "string option \<Rightarrow> bool" where
  "name_truthy current_node = (case current_node of None \<Rightarrow> False | Some s \<Rightarrow> s \<noteq> [])"

text \<open>\<^verbatim>\<open>isinstance(result, dict)\<close>, with the entries of the dict when it is one.\<close>

fun as_dict :: "heap \<Rightarrow> retval \<Rightarrow> pydict option" where
  "as_dict h (RDict d) = Some d"
| "as_dict h (RVal (PRef a)) = (case h a of Some (ODict d) \<Rightarrow> Some d | _ \<Rightarrow> None)"
| "as_dict h (RVal v) = None"

fun truthy :: "heap \<Rightarrow> retval \<Rightarrow> bool" where
  "truthy h (RDict d) = (d \<noteq> Map.empty)"
| "truthy h (RVal PNone) = False"
| "truthy h (RVal (PBool b)) = b"
| "truthy h (RVal (PInt i)) = (i \<noteq> 0)"
| "truthy h (RVal (PStr s)) = (s \<noteq> [])"
| "truthy h (RVal (PRef a)) =
     (case h a of Some (OList xs) \<Rightarrow> xs \<noteq> [] | Some (ODict d) \<Rightarrow> d \<noteq> Map.empty | None \<Rightarrow> True)"

text \<open>\<^verbatim>\<open>if result and isinstance(result, dict): self.run.state.update(result)\<close>\<close>

definition merge_result :: "pydict \<Rightarrow> heap \<Rightarrow> retval \<Rightarrow> pydict" where
  "merge_result st h result =
     (if truthy h result \<and> as_dict h result \<noteq> None then st ++ the (as_dict h result) else st)"

text \<open>
  One pass through the body of the \<^verbatim>\<open>while\<close> loop, for the node \<open>current_node\<close>: the run
  and the heap as the pass leaves them, and either the exception that left the loop or
  the next value of \<^verbatim>\<open>current_node\<close>.
\<close>

definition loop_body ::
  "Graph \<Rightarrow> string \<Rightarrow> WorkflowRun \<times> heap \<Rightarrow> (WorkflowRun \<times> heap) \<times> (exn + string option)" where
  "loop_body g current_node rh =
     (case rh of (r, h) \<Rightarrow>
       (case nodes g current_node of
          None \<Rightarrow> ((r, h), Inl (KeyError current_node))
        | Some node_def \<Rightarrow>
            (case func node_def (state r, h) of
               ((st1, h1), Inl e) \<Rightarrow>
                 ((r\<lparr>state := st1,
                     logs := logs r @
                       [\<lparr>node_name = current_node, log_status = ''error'',
                         state_snapshot = st1, log_error = Some (str_exn e)\<rparr>]\<rparr>, h1),
                  Inl e)
             | ((st1, h1), Inr result) \<Rightarrow>
                 (let st2 = merge_result st1 h1 result;
                      r2 = r\<lparr>state := st2,
                             logs := logs r @
                               [\<lparr>node_name = current_node, log_status = ''success'',
                                 state_snapshot = st2, log_error = None\<rparr>],
                             visited_nodes := visited_nodes r @ [current_node]\<rparr>;
                      next_nodes = get_next_nodes g current_node (st2, h1)
                  in ((r2, h1),
                      Inr (case next_nodes of [] \<Rightarrow> None | n # _ \<Rightarrow> Some n))))))"

text \<open>
  The \<^verbatim>\<open>while current_node and iteration < max_iterations\<close> loop. It returns the exception
  that left it, or the values of \<^verbatim>\<open>current_node\<close> and \<^verbatim>\<open>iteration\<close> at its exit.
\<close>

function exec_loop ::
  "Graph \<Rightarrow> int \<Rightarrow> WorkflowRun \<times> heap \<Rightarrow> string option \<Rightarrow> int
     \<Rightarrow> (WorkflowRun \<times> heap) \<times> (exn + string option \<times> int)" where
  "exec_loop g max_iterations rh current_node iteration =
     (if name_truthy current_node \<and> iteration < max_iterations
      then (case loop_body g (the current_node) rh of
              (rh1, Inl e) \<Rightarrow> (rh1, Inl e)
            | (rh1, Inr nxt) \<Rightarrow> exec_loop g max_iterations rh1 nxt (iteration + 1))
      else (rh, Inr (current_node, iteration)))"
  by pat_completeness auto
termination
  by (relation "measure (\<lambda>(g, mx, rh, c, it). nat (mx - it))") auto

declare exec_loop.simps [simp del]

text \<open>The \<^verbatim>\<open>except Exception as e\<close> clause of \<^verbatim>\<open>execute\<close>.\<close>

definition fail_run :: "WorkflowRun \<Rightarrow> exn \<Rightarrow> timestamp \<Rightarrow> WorkflowRun" where
  "fail_run r e now = r\<lparr>status := FAILED, error := Some (str_exn e), completed_at := Some now\<rparr>"

definition exceeded :: "int \<Rightarrow> exn" where
  "exceeded max_iterations =
     RuntimeError (''Workflow exceeded maximum iterations ('' @ str_int max_iterations @ '')'')"

text \<open>
  \<^verbatim>\<open>execute\<close> returns the executor and the heap as the call leaves them, and either the
  exception it raises or the run it returns. \<open>now\<close> is the clock reading stored in
  \<^verbatim>\<open>completed_at\<close>.
\<close>

definition execute ::
  "WorkflowExecutor \<Rightarrow> heap \<Rightarrow> pydict \<Rightarrow> int option \<Rightarrow> timestamp
     \<Rightarrow> (WorkflowExecutor \<times> heap) \<times> (exn + WorkflowRun)" where
  "execute ex h initial_state max_iterations now =
     (case validate (graph ex) of (is_valid, error_msg) \<Rightarrow>
        if \<not> is_valid then ((ex, h), Inl (ValueError (''Invalid graph: '' @ error_msg)))
        else
          (let r0 = WorkflowRun_init initial_state;
               mx = or_default max_iterations MAX_ITERATIONS
           in (case exec_loop (graph ex) mx (r0, h) (entry_point (graph ex)) 0 of
                 ((r1, h1), Inl e) \<Rightarrow> ((ex\<lparr>run := Some (fail_run r1 e now)\<rparr>, h1), Inl e)
               | ((r1, h1), Inr (current_node, iteration)) \<Rightarrow>
                   if iteration \<ge> mx
                   then ((ex\<lparr>run := Some (fail_run r1 (exceeded mx) now)\<rparr>, h1),
                         Inl (exceeded mx))
                   else
                     (let r2 = r1\<lparr>status := COMPLETED, completed_at := Some now\<rparr>
                      in ((ex\<lparr>run := Some r2\<rparr>, h1), Inr r2)))))"

definition get_current_run :: "WorkflowExecutor \<Rightarrow> WorkflowRun option" where
  "get_current_run ex = run ex"

text \<open>
  The loop configurations a run passes through: \<open>loop_reaches g mx c c'\<close> when the loop,
  started in configuration \<open>c\<close> (run and heap, current node, iteration count), arrives at
  the loop test in configuration \<open>c'\<close> after some number of passes that raised nothing.
\<close>

inductive loop_reaches ::
  "Graph \<Rightarrow> int \<Rightarrow> (WorkflowRun \<times> heap) \<times> string option \<times> int
     \<Rightarrow> (WorkflowRun \<times> heap) \<times> string option \<times> int \<Rightarrow> bool"
  for g :: Graph and mx :: int where
    reaches_start: "loop_reaches g mx c c"
  | reaches_pass:
      "loop_reaches g mx c (rh, Some cur, it) \<Longrightarrow> cur \<noteq> [] \<Longrightarrow> it < mx \<Longrightarrow>
       loop_body g cur rh = (rh1, Inr nxt) \<Longrightarrow>
       loop_reaches g mx c (rh1, nxt, it + 1)"

text \<open>Graphs built from an empty graph by calls of the three mutating methods.\<close>

inductive constructed :: "Graph \<Rightarrow> bool" where
    constructed_init: "constructed (Graph_init nm)"
  | constructed_add_node: "constructed g \<Longrightarrow> constructed (fst (add_node g nm f d))"
  | constructed_add_edge: "constructed g \<Longrightarrow> constructed (fst (add_edge g src dst c d))"
  | constructed_set_entry_point: "constructed g \<Longrightarrow> constructed (fst (set_entry_point g nm))"

section \<open>The specification's reading of edge resolution\<close>

text \<open>
  An edge is eligible from \<open>current\<close> in a state when it leaves \<open>current\<close> and its condition
  is absent or true of the state; the next nodes are the targets of the eligible edges,
  in declaration order.
\<close>

definition eligible :: "string \<Rightarrow> pydict \<times> heap \<Rightarrow> EdgeDefinition \<Rightarrow> bool" where
  "eligible current st e =
     (from_node e = current \<and> (case condition e of None \<Rightarrow> True | Some c \<Rightarrow> c st))"

definition next_nodes_spec :: "Graph \<Rightarrow> string \<Rightarrow> pydict \<times> heap \<Rightarrow> string list" where
  "next_nodes_spec g current st = map to_node (filter (eligible current st) (edges g))"

section \<open>Example workflows\<close>

text \<open>\<^verbatim>\<open>def noop(state): return None\<close> and \<^verbatim>\<open>def boom(state): raise Exception("boom")\<close>\<close>

definition noop :: node_fn where
  "noop env = (env, Inr (RVal PNone))"

definition boom :: node_fn where
  "boom env = (env, Inl (NodeException ''boom''))"

text \<open>\<^verbatim>\<open>def make_list(state): state["xs"] = [1]\<close>, the new list being stored at address 0.\<close>

definition make_list :: node_fn where
  "make_list env =
     (case env of (st, h) \<Rightarrow> ((st(''xs'' \<mapsto> PRef 0), h(0 \<mapsto> OList [PInt 1])), Inr (RVal PNone)))"

text \<open>\<^verbatim>\<open>def append_two(state): state["xs"].append(2)\<close>\<close>

definition append_two :: node_fn where
  "append_two env =
     (case env of (st, h) \<Rightarrow>
        (case st ''xs'' of
           None \<Rightarrow> ((st, h), Inl (KeyError ''xs''))
         | Some (PRef a) \<Rightarrow>
             (case h a of
                Some (OList xs) \<Rightarrow> ((st, h(a \<mapsto> OList (xs @ [PInt 2]))), Inr (RVal PNone))
              | _ \<Rightarrow> ((st, h), Inl (NodeException ''object has no attribute append'')))
         | Some _ \<Rightarrow> ((st, h), Inl (NodeException ''object has no attribute append''))))"

text \<open>\<^verbatim>\<open>lambda s: s.get("value", 0) > 50\<close>, on integer values.\<close>

definition value_high :: "pydict \<times> heap \<Rightarrow> bool" where
  "value_high env = (case fst env ''value'' of Some (PInt v) \<Rightarrow> v > 50 | _ \<Rightarrow> False)"

text \<open>A single node with no edge.\<close>

definition single_graph :: Graph where
  "single_graph = fst (add_node (Graph_init ''single'') ''a'' noop [])"

text \<open>A single node with an unconditional edge to itself.\<close>

definition self_loop_graph :: Graph where
  "self_loop_graph = fst (add_edge single_graph ''a'' ''a'' None [])"

text \<open>Node \<open>a\<close> followed by node \<open>b\<close>, which raises.\<close>

definition failing_graph :: Graph where
  "failing_graph =
     fst (add_edge (fst (add_node single_graph ''b'' boom [])) ''a'' ''b'' None [])"

text \<open>Node \<open>a\<close> stores a list in the state, node \<open>b\<close> appends to that list in place.\<close>

definition shared_graph :: Graph where
  "shared_graph =
     fst (add_edge
       (fst (add_node (fst (add_node (Graph_init ''shared'') ''a'' make_list [])) ''b''
          append_two [])) ''a'' ''b'' None [])"

text \<open>A conditional edge declared before an unconditional one, both leaving \<open>a\<close>.\<close>

definition branch_graph :: Graph where
  "branch_graph =
     fst (add_edge
       (fst (add_edge
         (fst (add_node (fst (add_node single_graph ''b'' noop [])) ''c'' noop []))
         ''a'' ''b'' (Some value_high) [])) ''a'' ''c'' None [])"

text \<open>A graph whose only node, and entry point, has the empty string as its name.\<close>

definition empty_name_graph :: Graph where
  "empty_name_graph = fst (add_node (Graph_init ''unnamed'') [] noop [])"

text \<open>\<^verbatim>\<open>def set_a(state): return {"a": 1}\<close>, as the only node of a graph.\<close>

definition set_a :: node_fn where
  "set_a env = (env, Inr (RDict [''a'' \<mapsto> PInt 1]))"

definition merge_graph :: Graph where
  "merge_graph = fst (add_node (Graph_init ''merge'') ''a'' set_a [])"

text \<open>
  What a snapshot shows under a key whose value is a reference: the container the heap
  holds at that address.
\<close>

definition seen :: "heap \<Rightarrow> pydict \<Rightarrow> string \<Rightarrow> pyobj option" where
  "seen h snapshot k = (case snapshot k of Some (PRef a) \<Rightarrow> h a | _ \<Rightarrow> None)"

section \<open>Facts about the loop\<close>

lemma next_nodes_loop_filter:
  "next_nodes_loop es cur st acc = acc @ map to_node (filter (eligible cur st) es)"
  by (induction es arbitrary: acc) (auto simp: eligible_def split: option.splits)

lemma exec_loop_stop:
  "\<not> (name_truthy cur \<and> it < mx) \<Longrightarrow> exec_loop g mx rh cur it = (rh, Inr (cur, it))"
  by (subst exec_loop.simps) auto

lemma exec_loop_pass:
  "name_truthy cur \<Longrightarrow> it < mx \<Longrightarrow>
   exec_loop g mx rh cur it =
     (case loop_body g (the cur) rh of
        (rh1, Inl e) \<Rightarrow> (rh1, Inl e)
      | (rh1, Inr nxt) \<Rightarrow> exec_loop g mx rh1 nxt (it + 1))"
  by (subst exec_loop.simps) auto

lemma loop_body_logs:
  "logs (fst (fst (loop_body g c (r, h)))) = logs r \<or>
   (\<exists>e. logs (fst (fst (loop_body g c (r, h)))) = logs r @ [e] \<and> node_name e = c)"
  by (auto simp: loop_body_def Let_def split: option.splits prod.splits sum.splits)

lemma loop_body_success:
  assumes "loop_body g c (r, h) = ((r2, h2), Inr nxt)"
  shows "\<exists>e. logs r2 = logs r @ [e] \<and> node_name e = c \<and> state_snapshot e = state r2 \<and>
           visited_nodes r2 = visited_nodes r @ [c]"
  using assms
  by (auto simp: loop_body_def Let_def split: option.splits prod.splits sum.splits)

lemma exec_loop_prefix:
  "prefix (logs (fst rh)) (logs (fst (fst (exec_loop g mx rh cur it))))"
proof (induction g mx rh cur it rule: exec_loop.induct)
  case (1 g mx rh cur it)
  show ?case
  proof (cases "name_truthy cur \<and> it < mx")
    case False
    then show ?thesis by (simp add: exec_loop_stop)
  next
    case True
    obtain rh1 res where lb: "loop_body g (the cur) rh = (rh1, res)" by (cases "loop_body g (the cur) rh")
    have step: "prefix (logs (fst rh)) (logs (fst rh1))"
      using loop_body_logs [of g "the cur" "fst rh" "snd rh"] lb by auto
    show ?thesis
    proof (cases res)
      case (Inl e)
      with True lb step show ?thesis by (simp add: exec_loop_pass)
    next
      case (Inr nxt)
      with True lb have "prefix (logs (fst rh1)) (logs (fst (fst (exec_loop g mx rh1 nxt (it + 1)))))"
        using "1.IH" by simp
      with step Inr True lb show ?thesis
        by (auto simp: exec_loop_pass intro: prefix_order.order_trans)
    qed
  qed
qed

lemma exec_loop_exit:
  "exec_loop g mx rh cur it = (rh', Inr (cur', it')) \<Longrightarrow>
     it \<le> it' \<and> \<not> (name_truthy cur' \<and> it' < mx) \<and> (it' \<le> mx \<or> it' = it) \<and>
     length (logs (fst rh')) = length (logs (fst rh)) + nat (it' - it)"
proof (induction g mx rh cur it rule: exec_loop.induct)
  case (1 g mx rh cur it)
  show ?case
  proof (cases "name_truthy cur \<and> it < mx")
    case False
    with "1.prems" show ?thesis by (auto simp: exec_loop_stop)
  next
    case True
    obtain rh1 res where lb: "loop_body g (the cur) rh = (rh1, res)" by (cases "loop_body g (the cur) rh")
    from True lb "1.prems" obtain nxt where res: "res = Inr nxt"
      and rec: "exec_loop g mx rh1 nxt (it + 1) = (rh', Inr (cur', it'))"
      by (cases res) (auto simp: exec_loop_pass)
    from "1.IH" [OF True lb [symmetric] res rec]
    have ih: "it + 1 \<le> it'" "\<not> (name_truthy cur' \<and> it' < mx)" "it' \<le> mx \<or> it' = it + 1"
      "length (logs (fst rh')) = length (logs (fst rh1)) + nat (it' - (it + 1))"
      by auto
    from lb res loop_body_success [of g "the cur" "fst rh" "snd rh" "fst rh1" "snd rh1" nxt]
    have "length (logs (fst rh1)) = length (logs (fst rh)) + 1" by auto
    with ih True show ?thesis by auto
  qed
qed

lemma loop_reaches_exec_loop:
  "loop_reaches g mx c c' \<Longrightarrow>
     exec_loop g mx (fst c) (fst (snd c)) (snd (snd c)) = exec_loop g mx (fst c') (fst (snd c')) (snd (snd c'))"
proof (induction rule: loop_reaches.induct)
  case (reaches_start c)
  show ?case by simp
next
  case (reaches_pass c rh cur it rh1 nxt)
  have "exec_loop g mx rh (Some cur) it = exec_loop g mx rh1 nxt (it + 1)"
    using reaches_pass.hyps(2-4) by (simp add: exec_loop_pass name_truthy_def)
  with reaches_pass.IH show ?case by simp
qed

lemma loop_body_returns:
  "nodes g c = Some nd \<Longrightarrow> func nd (state r, h) = ((st1, h1), Inr result) \<Longrightarrow>
   loop_body g c (r, h) =
     ((r\<lparr>state := merge_result st1 h1 result,
         logs := logs r @
           [\<lparr>node_name = c, log_status = ''success'',
             state_snapshot = merge_result st1 h1 result, log_error = None\<rparr>],
         visited_nodes := visited_nodes r @ [c]\<rparr>, h1),
      Inr (case get_next_nodes g c (merge_result st1 h1 result, h1) of
             [] \<Rightarrow> None | n # _ \<Rightarrow> Some n))"
  by (simp add: loop_body_def Let_def)

lemma loop_body_raises:
  "nodes g c = Some nd \<Longrightarrow> func nd (state r, h) = ((st1, h1), Inl e) \<Longrightarrow>
   loop_body g c (r, h) =
     ((r\<lparr>state := st1,
         logs := logs r @
           [\<lparr>node_name = c, log_status = ''error'',
             state_snapshot = st1, log_error = Some (str_exn e)\<rparr>]\<rparr>, h1),
      Inl e)"
  by (simp add: loop_body_def)

lemma loop_body_Inr:
  assumes "loop_body g c (r, h) = ((r2, h2), Inr nxt)"
  shows "\<exists>nd s res. nodes g c = Some nd \<and> func nd (state r, h) = ((s, h2), Inr res) \<and>
           r2 = r\<lparr>state := merge_result s h2 res,
                  logs := logs r @
                    [\<lparr>node_name = c, log_status = ''success'',
                      state_snapshot = merge_result s h2 res, log_error = None\<rparr>],
                  visited_nodes := visited_nodes r @ [c]\<rparr> \<and>
           nxt = (case get_next_nodes g c (merge_result s h2 res, h2) of
                    [] \<Rightarrow> None | n # _ \<Rightarrow> Some n)"
proof (cases "nodes g c")
  case None
  with assms show ?thesis by (simp add: loop_body_def)
next
  case (Some nd)
  obtain s h1 out where f: "func nd (state r, h) = ((s, h1), out)"
    by (cases "func nd (state r, h)") auto
  show ?thesis
  proof (cases out)
    case (Inl e)
    with assms Some f show ?thesis by (simp add: loop_body_raises)
  next
    case (Inr res)
    with assms Some f show ?thesis by (auto simp: loop_body_returns)
  qed
qed

lemma exec_loop_exit_trace:
  "exec_loop g mx rh cur it = (rh', Inr (cur', it')) \<Longrightarrow>
   map node_name (logs (fst rh)) = visited_nodes (fst rh) \<Longrightarrow>
   map node_name (logs (fst rh')) = visited_nodes (fst rh')"
proof (induction g mx rh cur it rule: exec_loop.induct)
  case (1 g mx rh cur it)
  show ?case
  proof (cases "name_truthy cur \<and> it < mx")
    case False
    with "1.prems" show ?thesis by (auto simp: exec_loop_stop)
  next
    case True
    obtain rh1 res where lb: "loop_body g (the cur) rh = (rh1, res)"
      by (cases "loop_body g (the cur) rh")
    from True lb "1.prems"(1) obtain nxt where res: "res = Inr nxt"
      and rec: "exec_loop g mx rh1 nxt (it + 1) = (rh', Inr (cur', it'))"
      by (cases res) (auto simp: exec_loop_pass)
    from lb res have "loop_body g (the cur) (fst rh, snd rh) = ((fst rh1, snd rh1), Inr nxt)"
      by simp
    from loop_body_Inr [OF this] "1.prems"(2)
    have inv: "map node_name (logs (fst rh1)) = visited_nodes (fst rh1)"
      by auto
    from "1.IH" [OF True lb [symmetric] res rec inv] show ?thesis .
  qed
qed

lemma exec_loop_first_log:
  assumes n: "nodes g ep = Some nd" and ne: "ep \<noteq> []" and lt: "it < mx"
  shows "\<exists>e es. logs (fst (fst (exec_loop g mx (r, h) (Some ep) it))) = logs r @ e # es \<and>
           node_name e = ep \<and>
           state_snapshot e =
             (case func nd (state r, h) of
                ((s, h1), Inl x) \<Rightarrow> s
              | ((s, h1), Inr res) \<Rightarrow> merge_result s h1 res)"
proof -
  obtain s h1 out where f: "func nd (state r, h) = ((s, h1), out)"
    by (cases "func nd (state r, h)") auto
  have t: "name_truthy (Some ep)" using ne by (simp add: name_truthy_def)
  show ?thesis
  proof (cases out)
    case (Inl x)
    have "exec_loop g mx (r, h) (Some ep) it =
        ((r\<lparr>state := s,
            logs := logs r @
              [\<lparr>node_name = ep, log_status = ''error'',
                state_snapshot = s, log_error = Some (str_exn x)\<rparr>]\<rparr>, h1), Inl x)"
      using f Inl by (simp add: exec_loop_pass [OF t lt] loop_body_raises [OF n])
    then show ?thesis using f Inl by simp
  next
    case (Inr res)
    let ?e = "\<lparr>node_name = ep, log_status = ''success'',
               state_snapshot = merge_result s h1 res, log_error = None\<rparr>"
    let ?r2 = "r\<lparr>state := merge_result s h1 res, logs := logs r @ [?e],
                 visited_nodes := visited_nodes r @ [ep]\<rparr>"
    let ?nxt = "case get_next_nodes g ep (merge_result s h1 res, h1) of
                  [] \<Rightarrow> None | n # _ \<Rightarrow> Some n"
    have lb: "loop_body g ep (r, h) = ((?r2, h1), Inr ?nxt)"
      using f Inr by (simp add: loop_body_returns [OF n])
    have el: "exec_loop g mx (r, h) (Some ep) it = exec_loop g mx (?r2, h1) ?nxt (it + 1)"
      by (simp add: exec_loop_pass [OF t lt] lb)
    from exec_loop_prefix [of "(?r2, h1)" g mx ?nxt "it + 1"]
    obtain zs where "logs (fst (fst (exec_loop g mx (?r2, h1) ?nxt (it + 1)))) = logs ?r2 @ zs"
      by (auto simp: prefix_def)
    then have "logs (fst (fst (exec_loop g mx (r, h) (Some ep) it))) = logs r @ ?e # zs"
      by (simp add: el)
    then show ?thesis using f Inr by simp
  qed
qed

section \<open>The example workflows, evaluated\<close>

lemma single_graph_eq:
  "single_graph =
     \<lparr>graph_name = ''single'',
      nodes = [''a'' \<mapsto> \<lparr>name = ''a'', func = noop, description = []\<rparr>],
      edges = [], entry_point = Some ''a''\<rparr>"
  by (simp add: single_graph_def add_node_def Graph_init_def)

lemma self_loop_graph_eq:
  "self_loop_graph =
     \<lparr>graph_name = ''single'',
      nodes = [''a'' \<mapsto> \<lparr>name = ''a'', func = noop, description = []\<rparr>],
      edges = [\<lparr>from_node = ''a'', to_node = ''a'', condition = None, edge_description = []\<rparr>],
      entry_point = Some ''a''\<rparr>"
  by (simp add: self_loop_graph_def single_graph_eq add_edge_def)

lemma failing_graph_eq:
  "failing_graph =
     \<lparr>graph_name = ''single'',
      nodes = [''a'' \<mapsto> \<lparr>name = ''a'', func = noop, description = []\<rparr>,
               ''b'' \<mapsto> \<lparr>name = ''b'', func = boom, description = []\<rparr>],
      edges = [\<lparr>from_node = ''a'', to_node = ''b'', condition = None, edge_description = []\<rparr>],
      entry_point = Some ''a''\<rparr>"
  by (simp add: failing_graph_def single_graph_eq add_edge_def add_node_def)

lemma shared_graph_eq:
  "shared_graph =
     \<lparr>graph_name = ''shared'',
      nodes = [''a'' \<mapsto> \<lparr>name = ''a'', func = make_list, description = []\<rparr>,
               ''b'' \<mapsto> \<lparr>name = ''b'', func = append_two, description = []\<rparr>],
      edges = [\<lparr>from_node = ''a'', to_node = ''b'', condition = None, edge_description = []\<rparr>],
      entry_point = Some ''a''\<rparr>"
  by (simp add: shared_graph_def Graph_init_def add_edge_def add_node_def)

lemma branch_graph_eq:
  "branch_graph =
     \<lparr>graph_name = ''single'',
      nodes = [''a'' \<mapsto> \<lparr>name = ''a'', func = noop, description = []\<rparr>,
               ''b'' \<mapsto> \<lparr>name = ''b'', func = noop, description = []\<rparr>,
               ''c'' \<mapsto> \<lparr>name = ''c'', func = noop, description = []\<rparr>],
      edges = [\<lparr>from_node = ''a'', to_node = ''b'', condition = Some value_high, edge_description = []\<rparr>,
               \<lparr>from_node = ''a'', to_node = ''c'', condition = None, edge_description = []\<rparr>],
      entry_point = Some ''a''\<rparr>"
  by (simp add: branch_graph_def single_graph_eq add_edge_def add_node_def)

lemma empty_name_graph_eq:
  "empty_name_graph =
     \<lparr>graph_name = ''unnamed'',
      nodes = [[] \<mapsto> \<lparr>name = [], func = noop, description = []\<rparr>],
      edges = [], entry_point = Some []\<rparr>"
  by (simp add: empty_name_graph_def add_node_def Graph_init_def)

lemma str_int_1: "str_int 1 = ''1''"
  by (simp add: str_int_def str_nat.simps)

lemma str_int_2: "str_int 2 = ''2''"
  by (simp add: str_int_def str_nat.simps)

lemma loop_body_single:
  "loop_body single_graph ''a'' (r, h) =
     ((r\<lparr>logs := logs r @
           [\<lparr>node_name = ''a'', log_status = ''success'',
             state_snapshot = state r, log_error = None\<rparr>],
         visited_nodes := visited_nodes r @ [''a'']\<rparr>, h), Inr None)"
  by (simp add: loop_body_def single_graph_eq noop_def merge_result_def get_next_nodes_def Let_def)

lemma loop_body_self_loop:
  "loop_body self_loop_graph ''a'' (r, h) =
     ((r\<lparr>logs := logs r @
           [\<lparr>node_name = ''a'', log_status = ''success'',
             state_snapshot = state r, log_error = None\<rparr>],
         visited_nodes := visited_nodes r @ [''a'']\<rparr>, h), Inr (Some ''a''))"
  by (simp add: loop_body_def self_loop_graph_eq noop_def merge_result_def get_next_nodes_def
      Let_def)

lemma loop_body_shared_a:
  "loop_body shared_graph ''a'' (WorkflowRun_init Map.empty, Map.empty) =
     ((\<lparr>state = [''xs'' \<mapsto> PRef 0], status = RUNNING,
        logs = [\<lparr>node_name = ''a'', log_status = ''success'',
                 state_snapshot = [''xs'' \<mapsto> PRef 0], log_error = None\<rparr>],
        completed_at = None, error = None, visited_nodes = [''a'']\<rparr>,
       [0 \<mapsto> OList [PInt 1]]),
      Inr (Some ''b''))"
  by (simp add: loop_body_def shared_graph_eq make_list_def WorkflowRun_init_def merge_result_def
      get_next_nodes_def Let_def)

lemma loop_body_shared_b:
  "loop_body shared_graph ''b''
     (\<lparr>state = [''xs'' \<mapsto> PRef 0], status = RUNNING,
        logs = [\<lparr>node_name = ''a'', log_status = ''success'',
                 state_snapshot = [''xs'' \<mapsto> PRef 0], log_error = None\<rparr>],
        completed_at = None, error = None, visited_nodes = [''a'']\<rparr>,
      [0 \<mapsto> OList [PInt 1]]) =
     ((\<lparr>state = [''xs'' \<mapsto> PRef 0], status = RUNNING,
        logs = [\<lparr>node_name = ''a'', log_status = ''success'',
                 state_snapshot = [''xs'' \<mapsto> PRef 0], log_error = None\<rparr>,
                \<lparr>node_name = ''b'', log_status = ''success'',
                 state_snapshot = [''xs'' \<mapsto> PRef 0], log_error = None\<rparr>],
        completed_at = None, error = None, visited_nodes = [''a'', ''b'']\<rparr>,
       [0 \<mapsto> OList [PInt 1, PInt 2]]),
      Inr None)"
  by (simp add: loop_body_def shared_graph_eq append_two_def merge_result_def
      get_next_nodes_def Let_def)

lemma exec_loop_shared:
  "exec_loop shared_graph 1000 (WorkflowRun_init Map.empty, Map.empty) (Some ''a'') 0 =
     ((\<lparr>state = [''xs'' \<mapsto> PRef 0], status = RUNNING,
        logs = [\<lparr>node_name = ''a'', log_status = ''success'',
                 state_snapshot = [''xs'' \<mapsto> PRef 0], log_error = None\<rparr>,
                \<lparr>node_name = ''b'', log_status = ''success'',
                 state_snapshot = [''xs'' \<mapsto> PRef 0], log_error = None\<rparr>],
        completed_at = None, error = None, visited_nodes = [''a'', ''b'']\<rparr>,
       [0 \<mapsto> OList [PInt 1, PInt 2]]),
      Inr (None, 2))"
proof -
  have 1: "exec_loop shared_graph 1000 (WorkflowRun_init Map.empty, Map.empty) (Some ''a'') 0 =
      exec_loop shared_graph 1000
        (\<lparr>state = [''xs'' \<mapsto> PRef 0], status = RUNNING,
           logs = [\<lparr>node_name = ''a'', log_status = ''success'',
                    state_snapshot = [''xs'' \<mapsto> PRef 0], log_error = None\<rparr>],
           completed_at = None, error = None, visited_nodes = [''a'']\<rparr>,
         [0 \<mapsto> OList [PInt 1]]) (Some ''b'') 1"
    by (subst exec_loop_pass) (simp_all add: name_truthy_def loop_body_shared_a)
  have 2: "exec_loop shared_graph 1000
        (\<lparr>state = [''xs'' \<mapsto> PRef 0], status = RUNNING,
           logs = [\<lparr>node_name = ''a'', log_status = ''success'',
                    state_snapshot = [''xs'' \<mapsto> PRef 0], log_error = None\<rparr>],
           completed_at = None, error = None, visited_nodes = [''a'']\<rparr>,
         [0 \<mapsto> OList [PInt 1]]) (Some ''b'') 1 =
      exec_loop shared_graph 1000
        (\<lparr>state = [''xs'' \<mapsto> PRef 0], status = RUNNING,
           logs = [\<lparr>node_name = ''a'', log_status = ''success'',
                    state_snapshot = [''xs'' \<mapsto> PRef 0], log_error = None\<rparr>,
                   \<lparr>node_name = ''b'', log_status = ''success'',
                    state_snapshot = [''xs'' \<mapsto> PRef 0], log_error = None\<rparr>],
           completed_at = None, error = None, visited_nodes = [''a'', ''b'']\<rparr>,
         [0 \<mapsto> OList [PInt 1, PInt 2]]) None 2"
    by (subst exec_loop_pass) (simp_all add: name_truthy_def loop_body_shared_b)
  show ?thesis
    unfolding 1 2 by (simp add: exec_loop_stop name_truthy_def)
qed

section \<open>Facts about validation and execution\<close>

lemma validate_invalid_iff:
  "(\<not> fst (validate g)) =
     (nodes g = Map.empty \<or> entry_point g = None \<or>
      (\<exists>ep. entry_point g = Some ep \<and> ep \<notin> dom (nodes g)))"
  by (auto simp: validate_def split: option.splits)

lemma constructed_invariant:
  "constructed g \<Longrightarrow>
     (entry_point g = None) = (nodes g = Map.empty) \<and>
     (\<forall>ep. entry_point g = Some ep \<longrightarrow> ep \<in> dom (nodes g))"
proof (induction rule: constructed.induct)
  case (constructed_init nm)
  show ?case by (simp add: Graph_init_def)
next
  case (constructed_add_node g nm f d)
  then show ?case by (auto simp: add_node_def Let_def)
next
  case (constructed_add_edge g src dst c d)
  then show ?case by (auto simp: add_edge_def)
next
  case (constructed_set_entry_point g nm)
  then show ?case by (auto simp: set_entry_point_def)
qed

lemma execute_valid:
  assumes "fst (validate (graph ex))"
  shows "execute ex h initial_state max_iterations now =
     (case exec_loop (graph ex) (or_default max_iterations MAX_ITERATIONS)
             (WorkflowRun_init initial_state, h) (entry_point (graph ex)) 0 of
        ((r1, h1), Inl e) \<Rightarrow> ((ex\<lparr>run := Some (fail_run r1 e now)\<rparr>, h1), Inl e)
      | ((r1, h1), Inr (current_node, iteration)) \<Rightarrow>
          if iteration \<ge> or_default max_iterations MAX_ITERATIONS
          then ((ex\<lparr>run := Some (fail_run r1 (exceeded (or_default max_iterations MAX_ITERATIONS)) now)\<rparr>, h1),
                Inl (exceeded (or_default max_iterations MAX_ITERATIONS)))
          else ((ex\<lparr>run := Some (r1\<lparr>status := COMPLETED, completed_at := Some now\<rparr>)\<rparr>, h1),
                Inr (r1\<lparr>status := COMPLETED, completed_at := Some now\<rparr>)))"
proof -
  obtain msg where v: "validate (graph ex) = (True, msg)"
    using assms by (cases "validate (graph ex)") auto
  show ?thesis
    by (simp add: execute_def v Let_def split: prod.splits sum.splits)
qed

lemma execute_run_logs:
  assumes "fst (validate (graph ex))"
  shows "\<exists>rf. get_current_run (fst (fst (execute ex h initial_state max_iterations now))) = Some rf \<and>
           logs rf = logs (fst (fst (exec_loop (graph ex) (or_default max_iterations MAX_ITERATIONS)
                       (WorkflowRun_init initial_state, h) (entry_point (graph ex)) 0)))"
proof -
  obtain r1 h1 out where l: "exec_loop (graph ex) (or_default max_iterations MAX_ITERATIONS)
       (WorkflowRun_init initial_state, h) (entry_point (graph ex)) 0 = ((r1, h1), out)"
    by (cases "exec_loop (graph ex) (or_default max_iterations MAX_ITERATIONS)
       (WorkflowRun_init initial_state, h) (entry_point (graph ex)) 0") auto
  show ?thesis
  proof (cases out)
    case (Inl e)
    then show ?thesis
      by (simp add: execute_valid [OF assms] l get_current_run_def fail_run_def)
  next
    case (Inr p)
    obtain c i where p: "p = (c, i)" by (cases p)
    show ?thesis
      by (simp add: execute_valid [OF assms] l Inr p get_current_run_def fail_run_def)
  qed
qed

section \<open>Claims about the graph\<close>

text \<open>
  Claim C7. For every graph and every name already present in its node map,
  \<^verbatim>\<open>add_node\<close> raises the duplicate-node \<^verbatim>\<open>ValueError\<close> and leaves the graph unchanged:
  the stored node keeps the function registered first, and the node map, the edge list
  and the entry point are as before the call.
\<close>

theorem add_node_duplicate:
  assumes "nm \<in> dom (nodes g)"
  shows "fst (add_node g nm f d) = g \<and>
         snd (add_node g nm f d) =
           Some (ValueError (''Node '' @ [quote] @ nm @ [quote] @ '' already exists'')) \<and>
         map_option func (nodes (fst (add_node g nm f d)) nm) = map_option func (nodes g nm) \<and>
         nodes (fst (add_node g nm f d)) = nodes g \<and>
         edges (fst (add_node g nm f d)) = edges g \<and>
         entry_point (fst (add_node g nm f d)) = entry_point g"
  using assms by (simp add: add_node_def)

theorem add_node_duplicate_witness:
  "''a'' \<in> dom (nodes single_graph) \<and>
   fst (add_node single_graph ''a'' boom ''again'') = single_graph \<and>
   snd (add_node single_graph ''a'' boom ''again'') =
     Some (ValueError (''Node '' @ [quote] @ ''a'' @ [quote] @ '' already exists'')) \<and>
   map_option func (nodes (fst (add_node single_graph ''a'' boom ''again'')) ''a'') = Some noop"
proof -
  have h: "''a'' \<in> dom (nodes single_graph)" by (simp add: single_graph_eq)
  show ?thesis
    using h add_node_duplicate [OF h, of boom "''again''"] by (simp add: single_graph_eq)
qed

text \<open>
  Claim C6. On a graph that \<^verbatim>\<open>validate\<close> reports invalid (no node, no entry point, or an
  entry point that is not a node), \<^verbatim>\<open>execute\<close> raises \<^verbatim>\<open>ValueError\<close> with the message
  \<^verbatim>\<open>Invalid graph:\<close> followed by the validation message, before any run is created: the
  executor, with its current-run reference, and the heap are returned as they were, so
  no node has executed and no log entry exists.
\<close>

theorem execute_invalid_graph:
  assumes "\<not> fst (validate (graph ex))"
  shows "(nodes (graph ex) = Map.empty \<or> entry_point (graph ex) = None \<or>
          (\<exists>ep. entry_point (graph ex) = Some ep \<and> ep \<notin> dom (nodes (graph ex)))) \<and>
         execute ex h initial_state max_iterations now =
           ((ex, h), Inl (ValueError (''Invalid graph: '' @ snd (validate (graph ex))))) \<and>
         get_current_run (fst (fst (execute ex h initial_state max_iterations now))) =
           get_current_run ex"
proof -
  obtain msg where v: "validate (graph ex) = (False, msg)"
    using assms by (cases "validate (graph ex)") auto
  have e: "execute ex h initial_state max_iterations now =
             ((ex, h), Inl (ValueError (''Invalid graph: '' @ msg)))"
    by (simp add: execute_def v)
  show ?thesis
    using assms validate_invalid_iff [of "graph ex"] by (simp add: e v)
qed

theorem execute_invalid_graph_witness:
  "\<not> fst (validate (graph (WorkflowExecutor_init (Graph_init ''g'')))) \<and>
   execute (WorkflowExecutor_init (Graph_init ''g'')) Map.empty [''k'' \<mapsto> PInt 1] None 7 =
     ((WorkflowExecutor_init (Graph_init ''g''), Map.empty),
      Inl (ValueError ''Invalid graph: Graph has no nodes''))"
proof -
  have h: "\<not> fst (validate (graph (WorkflowExecutor_init (Graph_init ''g''))))"
    by (simp add: validate_def WorkflowExecutor_init_def Graph_init_def)
  show ?thesis
    using h execute_invalid_graph [OF h, of Map.empty "[''k'' \<mapsto> PInt 1]" None 7]
    by (simp add: validate_def WorkflowExecutor_init_def Graph_init_def)
qed

text \<open>
  Claim C10. For every graph built from an empty graph by calls of \<^verbatim>\<open>add_node\<close>,
  \<^verbatim>\<open>add_edge\<close> and \<^verbatim>\<open>set_entry_point\<close> (whether they succeed or raise), the entry point is
  set whenever the node map is not empty and always names an existing node; so
  \<^verbatim>\<open>validate\<close> returns \<^verbatim>\<open>(True, "")\<close> exactly when the graph has a node, and otherwise
  returns the no-nodes message: its two other failure branches are never taken.
\<close>

theorem constructed_graph_validate:
  assumes "constructed g"
  shows "(nodes g \<noteq> Map.empty \<longrightarrow> entry_point g \<noteq> None) \<and>
         (\<forall>ep. entry_point g = Some ep \<longrightarrow> ep \<in> dom (nodes g)) \<and>
         (validate g = (True, [])) = (nodes g \<noteq> Map.empty) \<and>
         validate g =
           (if nodes g = Map.empty then (False, ''Graph has no nodes'') else (True, []))"
  using constructed_invariant [OF assms]
  by (auto simp: validate_def split: option.splits)

theorem constructed_graph_validate_witness:
  "constructed branch_graph \<and> nodes branch_graph \<noteq> Map.empty \<and>
   entry_point branch_graph = Some ''a'' \<and> ''a'' \<in> dom (nodes branch_graph) \<and>
   validate branch_graph = (True, [])"
proof -
  have h: "constructed branch_graph"
    unfolding branch_graph_def single_graph_def by (intro constructed.intros)
  show ?thesis
    using h constructed_graph_validate [OF h] by (simp add: branch_graph_eq)
qed

section \<open>Claims about the executor\<close>

text \<open>
  Claim C2. When the value a node returns is a dict, the merge is the top-level update of
  the state by it: every key of the result takes the result's value, every other key
  keeps its value, and a value is replaced as a whole (the heap, where nested containers
  live, is not touched by the merge). When the value is not a dict, \<^verbatim>\<open>None\<close> included,
  the state is unchanged. State \<^verbatim>\<open>{a: 0, b: 2}\<close> merged with \<^verbatim>\<open>{a: 1}\<close> is
  \<^verbatim>\<open>{a: 1, b: 2}\<close>. The loop body leaves the run with exactly this merged state.
\<close>

theorem merge_shallow_update:
  "(as_dict h result = Some d \<longrightarrow>
      merge_result st h result = st ++ d \<and>
      (\<forall>k. merge_result st h result k = (case d k of Some v \<Rightarrow> Some v | None \<Rightarrow> st k))) \<and>
   (as_dict h result = None \<longrightarrow> merge_result st h result = st) \<and>
   merge_result [''a'' \<mapsto> PInt 0, ''b'' \<mapsto> PInt 2] h (RDict [''a'' \<mapsto> PInt 1]) =
     [''a'' \<mapsto> PInt 1, ''b'' \<mapsto> PInt 2] \<and>
   (nodes g current = Some node_def \<and> func node_def (state r, h0) = ((st1, h1), Inr result1) \<longrightarrow>
      state (fst (fst (loop_body g current (r, h0)))) = merge_result st1 h1 result1 \<and>
      snd (fst (loop_body g current (r, h0))) = h1)"
proof -
  have empty: "truthy h result \<or> d = Map.empty" if "as_dict h result = Some d"
    using that by (cases "(h, result)" rule: as_dict.cases) (auto split: option.splits pyobj.splits)
  have a: "merge_result st h result = st ++ d" if "as_dict h result = Some d"
    using that empty [OF that] by (auto simp: merge_result_def)
  have b: "merge_result [''a'' \<mapsto> PInt 0, ''b'' \<mapsto> PInt 2] h (RDict [''a'' \<mapsto> PInt 1]) =
     [''a'' \<mapsto> PInt 1, ''b'' \<mapsto> PInt 2]"
    by (auto simp: merge_result_def fun_eq_iff map_add_def)
  have c: "state (fst (fst (loop_body g current (r, h0)))) = merge_result st1 h1 result1 \<and>
      snd (fst (loop_body g current (r, h0))) = h1"
    if "nodes g current = Some node_def" "func node_def (state r, h0) = ((st1, h1), Inr result1)"
    using that by (simp add: loop_body_def Let_def)
  show ?thesis
    using a b c by (auto simp: merge_result_def map_add_def split: option.splits)
qed

lemma merge_graph_eq:
  "merge_graph =
     \<lparr>graph_name = ''merge'',
      nodes = [''a'' \<mapsto> \<lparr>name = ''a'', func = set_a, description = []\<rparr>],
      edges = [], entry_point = Some ''a''\<rparr>"
  by (simp add: merge_graph_def add_node_def Graph_init_def)

theorem merge_shallow_update_witness:
  "as_dict Map.empty (RDict [''a'' \<mapsto> PInt 1]) = Some [''a'' \<mapsto> PInt 1] \<and>
   merge_result [''a'' \<mapsto> PInt 0, ''b'' \<mapsto> PInt 2] Map.empty (RDict [''a'' \<mapsto> PInt 1]) =
     [''a'' \<mapsto> PInt 0, ''b'' \<mapsto> PInt 2] ++ [''a'' \<mapsto> PInt 1] \<and>
   as_dict Map.empty (RVal PNone) = None \<and>
   merge_result [''a'' \<mapsto> PInt 0, ''b'' \<mapsto> PInt 2] Map.empty (RVal PNone) =
     [''a'' \<mapsto> PInt 0, ''b'' \<mapsto> PInt 2] \<and>
   nodes merge_graph ''a'' = Some \<lparr>name = ''a'', func = set_a, description = []\<rparr> \<and>
   state (fst (fst (loop_body merge_graph ''a''
      (WorkflowRun_init [''a'' \<mapsto> PInt 0, ''b'' \<mapsto> PInt 2], Map.empty)))) =
     [''a'' \<mapsto> PInt 1, ''b'' \<mapsto> PInt 2]"
proof -
  let ?st = "[''a'' \<mapsto> PInt 0, ''b'' \<mapsto> PInt 2]"
  have n: "nodes merge_graph ''a'' = Some \<lparr>name = ''a'', func = set_a, description = []\<rparr>"
    by (simp add: merge_graph_eq)
  have f: "func \<lparr>name = ''a'', func = set_a, description = []\<rparr>
             (state (WorkflowRun_init ?st), Map.empty) =
           ((?st, Map.empty), Inr (RDict [''a'' \<mapsto> PInt 1]))"
    by (simp add: set_a_def WorkflowRun_init_def)
  show ?thesis
    using n f
      merge_shallow_update [of Map.empty "RDict [''a'' \<mapsto> PInt 1]" "[''a'' \<mapsto> PInt 1]" ?st
        merge_graph "''a''" "\<lparr>name = ''a'', func = set_a, description = []\<rparr>"
        "WorkflowRun_init ?st" Map.empty ?st Map.empty "RDict [''a'' \<mapsto> PInt 1]"]
      merge_shallow_update [of Map.empty "RVal PNone" Map.empty ?st
        merge_graph "''a''" "\<lparr>name = ''a'', func = set_a, description = []\<rparr>"
        "WorkflowRun_init ?st" Map.empty ?st Map.empty "RDict [''a'' \<mapsto> PInt 1]"]
    by simp
qed

text \<open>
  Claim C3. \<^verbatim>\<open>get_next_nodes\<close> returns the targets of exactly the edges that leave
  \<open>current\<close> and whose condition is absent or true of the state, in declaration order: a
  subsequence of the declared edges. A pass of the loop runs exactly one node: when the
  function of the node \<open>current\<close> returns, the pass is determined by that one call (the
  merged state, one \<^verbatim>\<open>success\<close> log entry, one entry of \<^verbatim>\<open>visited_nodes\<close>), and every
  pass that raises nothing is such a pass. The next value of \<^verbatim>\<open>current_node\<close> is the
  first element of the list when the list is not empty, and \<^verbatim>\<open>None\<close> otherwise. The loop
  goes on with that value: the pass of the selected node comes next when its name is not
  the empty string and the cap is not reached; otherwise the loop ends with the selected
  name still in \<^verbatim>\<open>current_node\<close>, that node not having run.
\<close>

theorem get_next_nodes_first_match:
  "get_next_nodes g current st = next_nodes_spec g current st \<and>
   subseq (filter (eligible current st) (edges g)) (edges g) \<and>
   subseq (get_next_nodes g current st) (map to_node (edges g)) \<and>
   (nodes g current = Some node_def \<and> func node_def (state r, h) = ((st1, h1), Inr result) \<longrightarrow>
      loop_body g current (r, h) =
        ((r\<lparr>state := merge_result st1 h1 result,
            logs := logs r @
              [\<lparr>node_name = current, log_status = ''success'',
                state_snapshot = merge_result st1 h1 result, log_error = None\<rparr>],
            visited_nodes := visited_nodes r @ [current]\<rparr>, h1),
         Inr (case get_next_nodes g current (merge_result st1 h1 result, h1) of
                [] \<Rightarrow> None | n # _ \<Rightarrow> Some n))) \<and>
   (loop_body g current (r, h) = ((r2, h2), Inr nxt) \<longrightarrow>
      (\<exists>nd s res. nodes g current = Some nd \<and>
         func nd (state r, h) = ((s, h2), Inr res) \<and> state r2 = merge_result s h2 res) \<and>
      logs r2 = logs r @
        [\<lparr>node_name = current, log_status = ''success'',
          state_snapshot = state r2, log_error = None\<rparr>] \<and>
      visited_nodes r2 = visited_nodes r @ [current] \<and>
      (get_next_nodes g current (state r2, h2) = [] \<longrightarrow> nxt = None) \<and>
      (get_next_nodes g current (state r2, h2) \<noteq> [] \<longrightarrow>
         nxt = Some (hd (get_next_nodes g current (state r2, h2)))) \<and>
      (current \<noteq> [] \<and> it < mx \<longrightarrow>
         exec_loop g mx (r, h) (Some current) it = exec_loop g mx (r2, h2) nxt (it + 1)) \<and>
      (\<forall>n. nxt = Some n \<longrightarrow>
         exec_loop g mx (r2, h2) nxt (it + 1) =
           (if n \<noteq> [] \<and> it + 1 < mx
            then (case loop_body g n (r2, h2) of
                    (rh3, Inl e) \<Rightarrow> (rh3, Inl e)
                  | (rh3, Inr nxt') \<Rightarrow> exec_loop g mx rh3 nxt' (it + 1 + 1))
            else ((r2, h2), Inr (Some n, it + 1)))) \<and>
      (nxt = None \<longrightarrow>
         exec_loop g mx (r2, h2) nxt (it + 1) = ((r2, h2), Inr (None, it + 1))))"
proof -
  have a: "get_next_nodes g current st = next_nodes_spec g current st"
    by (simp add: get_next_nodes_def next_nodes_spec_def next_nodes_loop_filter)
  have b: "subseq (get_next_nodes g current st) (map to_node (edges g))"
    unfolding a next_nodes_spec_def by (intro subseq_map subseq_filter_left)
  have c: "loop_body g current (r, h) =
        ((r\<lparr>state := merge_result st1 h1 result,
            logs := logs r @
              [\<lparr>node_name = current, log_status = ''success'',
                state_snapshot = merge_result st1 h1 result, log_error = None\<rparr>],
            visited_nodes := visited_nodes r @ [current]\<rparr>, h1),
         Inr (case get_next_nodes g current (merge_result st1 h1 result, h1) of
                [] \<Rightarrow> None | n # _ \<Rightarrow> Some n))"
    if "nodes g current = Some node_def \<and> func node_def (state r, h) = ((st1, h1), Inr result)"
    using that by (simp add: loop_body_returns)
  have e: "(\<exists>nd s res. nodes g current = Some nd \<and>
         func nd (state r, h) = ((s, h2), Inr res) \<and> state r2 = merge_result s h2 res) \<and>
      logs r2 = logs r @
        [\<lparr>node_name = current, log_status = ''success'',
          state_snapshot = state r2, log_error = None\<rparr>] \<and>
      visited_nodes r2 = visited_nodes r @ [current] \<and>
      (get_next_nodes g current (state r2, h2) = [] \<longrightarrow> nxt = None) \<and>
      (get_next_nodes g current (state r2, h2) \<noteq> [] \<longrightarrow>
         nxt = Some (hd (get_next_nodes g current (state r2, h2)))) \<and>
      (current \<noteq> [] \<and> it < mx \<longrightarrow>
         exec_loop g mx (r, h) (Some current) it = exec_loop g mx (r2, h2) nxt (it + 1)) \<and>
      (\<forall>n. nxt = Some n \<longrightarrow>
         exec_loop g mx (r2, h2) nxt (it + 1) =
           (if n \<noteq> [] \<and> it + 1 < mx
            then (case loop_body g n (r2, h2) of
                    (rh3, Inl e) \<Rightarrow> (rh3, Inl e)
                  | (rh3, Inr nxt') \<Rightarrow> exec_loop g mx rh3 nxt' (it + 1 + 1))
            else ((r2, h2), Inr (Some n, it + 1)))) \<and>
      (nxt = None \<longrightarrow>
         exec_loop g mx (r2, h2) nxt (it + 1) = ((r2, h2), Inr (None, it + 1)))"
    if lb: "loop_body g current (r, h) = ((r2, h2), Inr nxt)"
  proof -
    from loop_body_Inr [OF lb] obtain nd s res where
      n: "nodes g current = Some nd" and f: "func nd (state r, h) = ((s, h2), Inr res)"
      and r2: "r2 = r\<lparr>state := merge_result s h2 res,
                  logs := logs r @
                    [\<lparr>node_name = current, log_status = ''success'',
                      state_snapshot = merge_result s h2 res, log_error = None\<rparr>],
                  visited_nodes := visited_nodes r @ [current]\<rparr>"
      and nx: "nxt = (case get_next_nodes g current (merge_result s h2 res, h2) of
                    [] \<Rightarrow> None | n # _ \<Rightarrow> Some n)"
      by blast
    have st: "state r2 = merge_result s h2 res" by (simp add: r2)
    have 1: "\<exists>nd s res. nodes g current = Some nd \<and>
         func nd (state r, h) = ((s, h2), Inr res) \<and> state r2 = merge_result s h2 res"
      using n f st by blast
    have 2: "logs r2 = logs r @
        [\<lparr>node_name = current, log_status = ''success'',
          state_snapshot = state r2, log_error = None\<rparr>]"
      by (simp add: r2)
    have 3: "visited_nodes r2 = visited_nodes r @ [current]"
      by (simp add: r2)
    have 4: "get_next_nodes g current (state r2, h2) = [] \<longrightarrow> nxt = None"
      by (simp add: nx st)
    have 5: "get_next_nodes g current (state r2, h2) \<noteq> [] \<longrightarrow>
         nxt = Some (hd (get_next_nodes g current (state r2, h2)))"
      by (simp add: nx st split: list.splits)
    have 6: "current \<noteq> [] \<and> it < mx \<longrightarrow>
         exec_loop g mx (r, h) (Some current) it = exec_loop g mx (r2, h2) nxt (it + 1)"
      using lb by (simp add: exec_loop_pass name_truthy_def)
    have 7: "\<forall>n. nxt = Some n \<longrightarrow>
         exec_loop g mx (r2, h2) nxt (it + 1) =
           (if n \<noteq> [] \<and> it + 1 < mx
            then (case loop_body g n (r2, h2) of
                    (rh3, Inl e) \<Rightarrow> (rh3, Inl e)
                  | (rh3, Inr nxt') \<Rightarrow> exec_loop g mx rh3 nxt' (it + 1 + 1))
            else ((r2, h2), Inr (Some n, it + 1)))"
    proof (intro allI impI)
      fix n assume "nxt = Some n"
      then show "exec_loop g mx (r2, h2) nxt (it + 1) =
           (if n \<noteq> [] \<and> it + 1 < mx
            then (case loop_body g n (r2, h2) of
                    (rh3, Inl e) \<Rightarrow> (rh3, Inl e)
                  | (rh3, Inr nxt') \<Rightarrow> exec_loop g mx rh3 nxt' (it + 1 + 1))
            else ((r2, h2), Inr (Some n, it + 1)))"
        by (cases "n \<noteq> [] \<and> it + 1 < mx")
           (simp_all only: exec_loop_pass [of "Some n" "it + 1" mx g "(r2, h2)"]
              exec_loop_stop [of "Some n" "it + 1" mx g "(r2, h2)"]
              name_truthy_def option.case option.sel if_True if_False simp_thms)
    qed
    have 8: "nxt = None \<longrightarrow>
         exec_loop g mx (r2, h2) nxt (it + 1) = ((r2, h2), Inr (None, it + 1))"
      by (simp add: exec_loop_stop name_truthy_def)
    from 1 2 3 4 5 6 7 8 show ?thesis by (intro conjI)
  qed
  show ?thesis
    apply (intro conjI)
        apply (rule a)
       apply (rule subseq_filter_left)
      apply (rule b)
     apply (rule impI)
     apply (erule c)
    apply (rule impI)
    apply (erule e)
    done
qed

lemma loop_body_branch:
  "loop_body branch_graph ''a'' (WorkflowRun_init [''value'' \<mapsto> PInt 75], Map.empty) =
     ((\<lparr>state = [''value'' \<mapsto> PInt 75], status = RUNNING,
        logs = [\<lparr>node_name = ''a'', log_status = ''success'',
                 state_snapshot = [''value'' \<mapsto> PInt 75], log_error = None\<rparr>],
        completed_at = None, error = None, visited_nodes = [''a'']\<rparr>, Map.empty),
      Inr (Some ''b''))"
  by (simp add: loop_body_def branch_graph_eq noop_def WorkflowRun_init_def merge_result_def
      get_next_nodes_def value_high_def Let_def)

theorem get_next_nodes_first_match_witness:
  "get_next_nodes branch_graph ''a'' ([''value'' \<mapsto> PInt 75], Map.empty) = [''b'', ''c''] \<and>
   get_next_nodes branch_graph ''a'' ([''value'' \<mapsto> PInt 75], Map.empty) =
     next_nodes_spec branch_graph ''a'' ([''value'' \<mapsto> PInt 75], Map.empty) \<and>
   nodes branch_graph ''a'' = Some \<lparr>name = ''a'', func = noop, description = []\<rparr> \<and>
   loop_body branch_graph ''a'' (WorkflowRun_init [''value'' \<mapsto> PInt 75], Map.empty) =
     ((\<lparr>state = [''value'' \<mapsto> PInt 75], status = RUNNING,
        logs = [\<lparr>node_name = ''a'', log_status = ''success'',
                 state_snapshot = [''value'' \<mapsto> PInt 75], log_error = None\<rparr>],
        completed_at = None, error = None, visited_nodes = [''a'']\<rparr>, Map.empty),
      Inr (Some ''b'')) \<and>
   Some ''b'' = Some (hd (get_next_nodes branch_graph ''a'' ([''value'' \<mapsto> PInt 75], Map.empty))) \<and>
   exec_loop branch_graph 1000
     (\<lparr>state = [''value'' \<mapsto> PInt 75], status = RUNNING,
        logs = [\<lparr>node_name = ''a'', log_status = ''success'',
                 state_snapshot = [''value'' \<mapsto> PInt 75], log_error = None\<rparr>],
        completed_at = None, error = None, visited_nodes = [''a'']\<rparr>, Map.empty)
     (Some ''b'') 1 =
     (case loop_body branch_graph ''b''
        (\<lparr>state = [''value'' \<mapsto> PInt 75], status = RUNNING,
           logs = [\<lparr>node_name = ''a'', log_status = ''success'',
                    state_snapshot = [''value'' \<mapsto> PInt 75], log_error = None\<rparr>],
           completed_at = None, error = None, visited_nodes = [''a'']\<rparr>, Map.empty) of
        (rh3, Inl e) \<Rightarrow> (rh3, Inl e)
      | (rh3, Inr nxt') \<Rightarrow> exec_loop branch_graph 1000 rh3 nxt' 2)"
proof -
  let ?s = "[''value'' \<mapsto> PInt 75]"
  let ?st = "(?s, Map.empty :: heap)"
  let ?nd = "\<lparr>name = ''a'', func = noop, description = []\<rparr>"
  let ?r2 = "\<lparr>state = [''value'' \<mapsto> PInt 75], status = RUNNING,
          logs = [\<lparr>node_name = ''a'', log_status = ''success'',
                   state_snapshot = [''value'' \<mapsto> PInt 75], log_error = None\<rparr>],
          completed_at = None, error = None, visited_nodes = [''a'']\<rparr>"
  note t = get_next_nodes_first_match [where g = branch_graph and current = "''a''" and st = ?st
        and node_def = ?nd and r = "WorkflowRun_init ?s" and h = Map.empty and ?st1.0 = ?s
        and ?h1.0 = Map.empty and result = "RVal PNone" and ?r2.0 = ?r2 and ?h2.0 = Map.empty
        and nxt = "Some ''b''" and it = 0 and mx = 1000]
  note tl = t [THEN conjunct2, THEN conjunct2, THEN conjunct2, THEN conjunct2, THEN mp,
      OF loop_body_branch]
  have n75: "get_next_nodes branch_graph ''a'' ?st = [''b'', ''c'']"
    by (simp add: get_next_nodes_def branch_graph_eq value_high_def)
  have s: "get_next_nodes branch_graph ''a'' ?st = next_nodes_spec branch_graph ''a'' ?st"
    by (rule t [THEN conjunct1])
  have n: "nodes branch_graph ''a'' = Some ?nd"
    by (simp add: branch_graph_eq)
  have f: "func ?nd (state (WorkflowRun_init ?s), Map.empty) = ((?s, Map.empty), Inr (RVal PNone))"
    by (simp add: noop_def WorkflowRun_init_def)
  note lb0 = t [THEN conjunct2, THEN conjunct2, THEN conjunct2, THEN conjunct1, THEN mp,
      OF conjI [OF n f]]
  have lb: "loop_body branch_graph ''a'' (WorkflowRun_init ?s, Map.empty) =
              ((?r2, Map.empty), Inr (Some ''b''))"
    unfolding lb0
    by (simp add: merge_result_def WorkflowRun_init_def get_next_nodes_def branch_graph_eq
        value_high_def)
  have st: "(state ?r2, Map.empty :: heap) = ?st" by simp
  note hd0 = tl [THEN conjunct2, THEN conjunct2, THEN conjunct2, THEN conjunct2, THEN conjunct1]
  have h: "Some ''b'' = Some (hd (get_next_nodes branch_graph ''a'' ?st))"
    using hd0 n75 unfolding st by simp
  note nx0 = tl [THEN conjunct2, THEN conjunct2, THEN conjunct2, THEN conjunct2, THEN conjunct2,
      THEN conjunct2, THEN conjunct1, THEN spec, of "''b''", THEN mp, OF refl]
  have nx: "exec_loop branch_graph 1000 (?r2, Map.empty) (Some ''b'') 1 =
     (case loop_body branch_graph ''b'' (?r2, Map.empty) of
        (rh3, Inl e) \<Rightarrow> (rh3, Inl e)
      | (rh3, Inr nxt') \<Rightarrow> exec_loop branch_graph 1000 rh3 nxt' 2)"
    using nx0 by simp
  from n75 s n lb h nx show ?thesis by (intro conjI)
qed

text \<open>
  Claim C4. When a run reaches a node whose function raises an exception \<open>e\<close>, the executor
  appends an error log entry whose error field is \<^verbatim>\<open>str(e)\<close>, leaves
  \<^verbatim>\<open>visited_nodes\<close> as it was, sets the status to \<^verbatim>\<open>FAILED\<close>, the run's error to
  \<^verbatim>\<open>str(e)\<close> and \<^verbatim>\<open>completed_at\<close>, and raises \<open>e\<close> to the caller; the finalized run is the
  executor's current run, and the error entry is the last of its log: no further node ran.
\<close>

theorem node_failure_finalizes_run:
  assumes valid: "fst (validate (graph ex))"
    and mx: "mx = or_default max_iterations MAX_ITERATIONS"
    and reach: "loop_reaches (graph ex) mx
                  ((WorkflowRun_init initial_state, h), entry_point (graph ex), 0)
                  ((r, h0), Some current, it)"
    and cont: "current \<noteq> []" "it < mx"
    and node: "nodes (graph ex) current = Some node_def"
    and raised: "func node_def (state r, h0) = ((st1, h1), Inl e)"
  shows "execute ex h initial_state max_iterations now =
           ((ex\<lparr>run := Some (fail_run
               (r\<lparr>state := st1,
                  logs := logs r @ [\<lparr>node_name = current, log_status = ''error'',
                                     state_snapshot = st1, log_error = Some (str_exn e)\<rparr>]\<rparr>)
               e now)\<rparr>, h1), Inl e) \<and>
         (\<exists>rf. get_current_run (fst (fst (execute ex h initial_state max_iterations now))) = Some rf \<and>
           logs rf = logs r @ [\<lparr>node_name = current, log_status = ''error'',
                                state_snapshot = st1, log_error = Some (str_exn e)\<rparr>] \<and>
           visited_nodes rf = visited_nodes r \<and>
           status rf = FAILED \<and> error rf = Some (str_exn e) \<and> completed_at rf = Some now)"
proof -
  let ?entry = "\<lparr>node_name = current, log_status = ''error'',
                  state_snapshot = st1, log_error = Some (str_exn e)\<rparr>"
  let ?r1 = "r\<lparr>state := st1, logs := logs r @ [?entry]\<rparr>"
  obtain msg where v: "validate (graph ex) = (True, msg)"
    using valid by (cases "validate (graph ex)") auto
  have body: "loop_body (graph ex) current (r, h0) = ((?r1, h1), Inl e)"
    using node raised by (simp add: loop_body_def)
  have "exec_loop (graph ex) mx (r, h0) (Some current) it = ((?r1, h1), Inl e)"
    using cont body by (simp add: exec_loop_pass name_truthy_def)
  with loop_reaches_exec_loop [OF reach]
  have loop: "exec_loop (graph ex) mx (WorkflowRun_init initial_state, h) (entry_point (graph ex)) 0 =
                ((?r1, h1), Inl e)"
    by simp
  have "execute ex h initial_state max_iterations now =
          ((ex\<lparr>run := Some (fail_run ?r1 e now)\<rparr>, h1), Inl e)"
    using loop mx by (simp add: execute_def v)
  then show ?thesis
    by (simp add: fail_run_def get_current_run_def)
qed

lemma loop_body_failing_a:
  "loop_body failing_graph ''a'' (WorkflowRun_init Map.empty, Map.empty) =
     ((\<lparr>state = Map.empty, status = RUNNING,
        logs = [\<lparr>node_name = ''a'', log_status = ''success'',
                 state_snapshot = Map.empty, log_error = None\<rparr>],
        completed_at = None, error = None, visited_nodes = [''a'']\<rparr>, Map.empty),
      Inr (Some ''b''))"
  by (simp add: loop_body_def failing_graph_eq noop_def WorkflowRun_init_def merge_result_def
      get_next_nodes_def Let_def)

theorem node_failure_finalizes_run_witness:
  "fst (validate (graph (WorkflowExecutor_init failing_graph))) \<and>
   nodes (graph (WorkflowExecutor_init failing_graph)) ''b'' =
     Some \<lparr>name = ''b'', func = boom, description = []\<rparr> \<and>
   execute (WorkflowExecutor_init failing_graph) Map.empty Map.empty None 7 =
     ((\<lparr>graph = failing_graph,
        run = Some \<lparr>state = Map.empty, status = FAILED,
          logs = [\<lparr>node_name = ''a'', log_status = ''success'',
                   state_snapshot = Map.empty, log_error = None\<rparr>,
                  \<lparr>node_name = ''b'', log_status = ''error'',
                   state_snapshot = Map.empty, log_error = Some ''boom''\<rparr>],
          completed_at = Some 7, error = Some ''boom'', visited_nodes = [''a'']\<rparr>\<rparr>, Map.empty),
      Inl (NodeException ''boom''))"
proof -
  let ?ex = "WorkflowExecutor_init failing_graph"
  let ?r = "\<lparr>state = Map.empty, status = RUNNING,
        logs = [\<lparr>node_name = ''a'', log_status = ''success'',
                 state_snapshot = Map.empty, log_error = None\<rparr>],
        completed_at = None, error = None, visited_nodes = [''a'']\<rparr>"
  have g: "graph ?ex = failing_graph" by (simp add: WorkflowExecutor_init_def)
  have v: "fst (validate (graph ?ex))"
    by (simp add: WorkflowExecutor_init_def validate_def failing_graph_eq)
  have n: "nodes (graph ?ex) ''b'' = Some \<lparr>name = ''b'', func = boom, description = []\<rparr>"
    by (simp add: WorkflowExecutor_init_def failing_graph_eq)
  have e: "entry_point failing_graph = Some ''a''"
    by (simp add: failing_graph_eq)
  have reach: "loop_reaches (graph ?ex) 1000
                 ((WorkflowRun_init Map.empty, Map.empty), entry_point (graph ?ex), 0)
                 ((?r, Map.empty), Some ''b'', 1)"
    unfolding g e
    using reaches_pass [OF reaches_start, of "''a''" 0 1000 failing_graph
        "(WorkflowRun_init Map.empty, Map.empty)" "(?r, Map.empty)" "Some ''b''"]
      loop_body_failing_a
    by simp
  have f: "func \<lparr>name = ''b'', func = boom, description = []\<rparr> (state ?r, Map.empty) =
             ((Map.empty, Map.empty), Inl (NodeException ''boom''))"
    by (simp add: boom_def)
  have mx: "(1000::int) = or_default None MAX_ITERATIONS"
    by (simp add: or_default_def MAX_ITERATIONS_def)
  have c1: "''b'' \<noteq> []" by simp
  have c2: "(1::int) < 1000" by simp
  note t = node_failure_finalizes_run [OF v mx reach c1 c2 n f, of 7, THEN conjunct1]
  from t have x: "execute ?ex Map.empty Map.empty None 7 =
     ((\<lparr>graph = failing_graph,
        run = Some \<lparr>state = Map.empty, status = FAILED,
          logs = [\<lparr>node_name = ''a'', log_status = ''success'',
                   state_snapshot = Map.empty, log_error = None\<rparr>,
                  \<lparr>node_name = ''b'', log_status = ''error'',
                   state_snapshot = Map.empty, log_error = Some ''boom''\<rparr>],
          completed_at = Some 7, error = Some ''boom'', visited_nodes = [''a'']\<rparr>\<rparr>, Map.empty),
      Inl (NodeException ''boom''))"
    by (simp add: fail_run_def WorkflowExecutor_init_def)
  from v n x show ?thesis by (intro conjI)
qed

text \<open>
  Claim C5. When the loop of a run exits after \<open>max_iterations\<close> passes with
  \<^verbatim>\<open>current_node\<close> still set, \<^verbatim>\<open>execute\<close> raises the \<^verbatim>\<open>RuntimeError\<close> whose message holds
  the cap, and the executor's current run has the status \<^verbatim>\<open>FAILED\<close>, that message as its
  error, \<^verbatim>\<open>completed_at\<close> set, and exactly \<open>max_iterations\<close> log entries, one for each
  node visited.
\<close>

theorem iteration_cap_failure:
  assumes valid: "fst (validate (graph ex))"
    and mx: "mx = or_default max_iterations MAX_ITERATIONS"
    and loop: "exec_loop (graph ex) mx (WorkflowRun_init initial_state, h)
                 (entry_point (graph ex)) 0 = ((r1, h1), Inr (Some current, mx))"
  shows "execute ex h initial_state max_iterations now =
           ((ex\<lparr>run := Some (fail_run r1 (exceeded mx) now)\<rparr>, h1), Inl (exceeded mx)) \<and>
         (\<exists>rf. get_current_run (fst (fst (execute ex h initial_state max_iterations now))) = Some rf \<and>
            status rf = FAILED \<and>
            error rf = Some (''Workflow exceeded maximum iterations ('' @ str_int mx @ '')'') \<and>
            completed_at rf = Some now \<and>
            logs rf = logs r1 \<and>
            int (length (logs rf)) = mx \<and>
            map node_name (logs rf) = visited_nodes rf)"
proof -
  from exec_loop_exit [OF loop]
  have len: "length (logs r1) = nat mx" and nn: "0 \<le> mx"
    by (auto simp: WorkflowRun_init_def)
  from exec_loop_exit_trace [OF loop]
  have tr: "map node_name (logs r1) = visited_nodes r1"
    by (simp add: WorkflowRun_init_def)
  have e: "execute ex h initial_state max_iterations now =
          ((ex\<lparr>run := Some (fail_run r1 (exceeded mx) now)\<rparr>, h1), Inl (exceeded mx))"
    using loop mx by (simp add: execute_valid [OF valid])
  show ?thesis
    using len nn tr by (simp add: e fail_run_def get_current_run_def exceeded_def)
qed

theorem iteration_cap_failure_witness:
  "fst (validate (graph (WorkflowExecutor_init self_loop_graph))) \<and>
   exec_loop self_loop_graph 2 (WorkflowRun_init Map.empty, Map.empty) (Some ''a'') 0 =
     ((\<lparr>state = Map.empty, status = RUNNING,
        logs = [\<lparr>node_name = ''a'', log_status = ''success'',
                 state_snapshot = Map.empty, log_error = None\<rparr>,
                \<lparr>node_name = ''a'', log_status = ''success'',
                 state_snapshot = Map.empty, log_error = None\<rparr>],
        completed_at = None, error = None, visited_nodes = [''a'', ''a'']\<rparr>, Map.empty),
      Inr (Some ''a'', 2)) \<and>
   execute (WorkflowExecutor_init self_loop_graph) Map.empty Map.empty (Some 2) 7 =
     ((\<lparr>graph = self_loop_graph,
        run = Some \<lparr>state = Map.empty, status = FAILED,
          logs = [\<lparr>node_name = ''a'', log_status = ''success'',
                   state_snapshot = Map.empty, log_error = None\<rparr>,
                  \<lparr>node_name = ''a'', log_status = ''success'',
                   state_snapshot = Map.empty, log_error = None\<rparr>],
          completed_at = Some 7, error = Some ''Workflow exceeded maximum iterations (2)'',
          visited_nodes = [''a'', ''a'']\<rparr>\<rparr>, Map.empty),
      Inl (RuntimeError ''Workflow exceeded maximum iterations (2)''))"
proof -
  let ?ex = "WorkflowExecutor_init self_loop_graph"
  let ?r = "\<lparr>state = Map.empty, status = RUNNING,
        logs = [\<lparr>node_name = ''a'', log_status = ''success'',
                 state_snapshot = Map.empty, log_error = None\<rparr>,
                \<lparr>node_name = ''a'', log_status = ''success'',
                 state_snapshot = Map.empty, log_error = None\<rparr>],
        completed_at = None, error = None, visited_nodes = [''a'', ''a'']\<rparr>"
  have g: "graph ?ex = self_loop_graph" by (simp add: WorkflowExecutor_init_def)
  have v: "fst (validate (graph ?ex))"
    by (simp add: WorkflowExecutor_init_def validate_def self_loop_graph_eq)
  have ep: "entry_point self_loop_graph = Some ''a''"
    by (simp add: self_loop_graph_eq)
  have l: "exec_loop self_loop_graph 2 (WorkflowRun_init Map.empty, Map.empty) (Some ''a'') 0 =
             ((?r, Map.empty), Inr (Some ''a'', 2))"
    by (simp add: exec_loop_pass exec_loop_stop name_truthy_def loop_body_self_loop
        WorkflowRun_init_def)
  have loop: "exec_loop (graph ?ex) 2 (WorkflowRun_init Map.empty, Map.empty)
                (entry_point (graph ?ex)) 0 = ((?r, Map.empty), Inr (Some ''a'', 2))"
    unfolding g ep by (rule l)
  have mx: "(2::int) = or_default (Some 2) MAX_ITERATIONS"
    by (simp add: or_default_def)
  note t = iteration_cap_failure [OF v mx loop, of 7, THEN conjunct1]
  from t have x: "execute ?ex Map.empty Map.empty (Some 2) 7 =
     ((\<lparr>graph = self_loop_graph,
        run = Some \<lparr>state = Map.empty, status = FAILED,
          logs = [\<lparr>node_name = ''a'', log_status = ''success'',
                   state_snapshot = Map.empty, log_error = None\<rparr>,
                  \<lparr>node_name = ''a'', log_status = ''success'',
                   state_snapshot = Map.empty, log_error = None\<rparr>],
          completed_at = Some 7, error = Some ''Workflow exceeded maximum iterations (2)'',
          visited_nodes = [''a'', ''a'']\<rparr>\<rparr>, Map.empty),
      Inl (RuntimeError ''Workflow exceeded maximum iterations (2)''))"
    by (simp add: fail_run_def exceeded_def str_int_2 WorkflowExecutor_init_def)
  from v l x show ?thesis by (intro conjI)
qed

text \<open>
  Claim C1. A run whose loop exits because \<^verbatim>\<open>current_node\<close> became \<^verbatim>\<open>None\<close> is to be
  completed, also when that happens on the pass that reaches the cap. The test after the
  loop, \<^verbatim>\<open>if iteration >= max_iterations\<close>, looks at the count alone. On the graph of one
  node and no edge, run with \<^verbatim>\<open>max_iterations = 1\<close>, the node has no next node and the
  loop exits after its first pass with \<^verbatim>\<open>current_node\<close> \<^verbatim>\<open>None\<close>; \<^verbatim>\<open>execute\<close> then raises
  \<^verbatim>\<open>Workflow exceeded maximum iterations (1)\<close> and marks the run \<^verbatim>\<open>FAILED\<close>. With
  \<^verbatim>\<open>max_iterations = 2\<close> the same run, of the same single pass, is completed.
\<close>

theorem natural_termination_at_cap_fails:
  "get_next_nodes single_graph ''a'' (Map.empty, Map.empty) = [] \<and>
   exec_loop single_graph 1 (WorkflowRun_init Map.empty, Map.empty) (Some ''a'') 0 =
     ((\<lparr>state = Map.empty, status = RUNNING,
        logs = [\<lparr>node_name = ''a'', log_status = ''success'',
                 state_snapshot = Map.empty, log_error = None\<rparr>],
        completed_at = None, error = None, visited_nodes = [''a'']\<rparr>, Map.empty),
      Inr (None, 1)) \<and>
   execute (WorkflowExecutor_init single_graph) Map.empty Map.empty (Some 1) 7 =
     ((\<lparr>graph = single_graph,
        run = Some \<lparr>state = Map.empty, status = FAILED,
          logs = [\<lparr>node_name = ''a'', log_status = ''success'',
                   state_snapshot = Map.empty, log_error = None\<rparr>],
          completed_at = Some 7, error = Some ''Workflow exceeded maximum iterations (1)'',
          visited_nodes = [''a'']\<rparr>\<rparr>, Map.empty),
      Inl (RuntimeError ''Workflow exceeded maximum iterations (1)'')) \<and>
   execute (WorkflowExecutor_init single_graph) Map.empty Map.empty (Some 2) 7 =
     ((\<lparr>graph = single_graph,
        run = Some \<lparr>state = Map.empty, status = COMPLETED,
          logs = [\<lparr>node_name = ''a'', log_status = ''success'',
                   state_snapshot = Map.empty, log_error = None\<rparr>],
          completed_at = Some 7, error = None, visited_nodes = [''a'']\<rparr>\<rparr>, Map.empty),
      Inr \<lparr>state = Map.empty, status = COMPLETED,
          logs = [\<lparr>node_name = ''a'', log_status = ''success'',
                   state_snapshot = Map.empty, log_error = None\<rparr>],
          completed_at = Some 7, error = None, visited_nodes = [''a'']\<rparr>)"
proof -
  let ?ex = "WorkflowExecutor_init single_graph"
  have v: "fst (validate (graph ?ex))"
    by (simp add: WorkflowExecutor_init_def validate_def single_graph_eq)
  have g: "graph ?ex = single_graph" by (simp add: WorkflowExecutor_init_def)
  have ep: "entry_point single_graph = Some ''a''"
    by (simp add: single_graph_eq)
  have a: "get_next_nodes single_graph ''a'' (Map.empty, Map.empty) = []"
    by (simp add: get_next_nodes_def single_graph_eq)
  have l1: "exec_loop single_graph 1 (WorkflowRun_init Map.empty, Map.empty) (Some ''a'') 0 =
     ((\<lparr>state = Map.empty, status = RUNNING,
        logs = [\<lparr>node_name = ''a'', log_status = ''success'',
                 state_snapshot = Map.empty, log_error = None\<rparr>],
        completed_at = None, error = None, visited_nodes = [''a'']\<rparr>, Map.empty),
      Inr (None, 1))"
    by (simp add: exec_loop_pass exec_loop_stop name_truthy_def loop_body_single
        WorkflowRun_init_def)
  have l2: "exec_loop single_graph 2 (WorkflowRun_init Map.empty, Map.empty) (Some ''a'') 0 =
     ((\<lparr>state = Map.empty, status = RUNNING,
        logs = [\<lparr>node_name = ''a'', log_status = ''success'',
                 state_snapshot = Map.empty, log_error = None\<rparr>],
        completed_at = None, error = None, visited_nodes = [''a'']\<rparr>, Map.empty),
      Inr (None, 1))"
    by (simp add: exec_loop_pass exec_loop_stop name_truthy_def loop_body_single
        WorkflowRun_init_def)
  have m1: "or_default (Some 1) MAX_ITERATIONS = 1" by (simp add: or_default_def)
  have m2: "or_default (Some 2) MAX_ITERATIONS = 2" by (simp add: or_default_def)
  have x1: "execute ?ex Map.empty Map.empty (Some 1) 7 =
     ((\<lparr>graph = single_graph,
        run = Some \<lparr>state = Map.empty, status = FAILED,
          logs = [\<lparr>node_name = ''a'', log_status = ''success'',
                   state_snapshot = Map.empty, log_error = None\<rparr>],
          completed_at = Some 7, error = Some ''Workflow exceeded maximum iterations (1)'',
          visited_nodes = [''a'']\<rparr>\<rparr>, Map.empty),
      Inl (RuntimeError ''Workflow exceeded maximum iterations (1)''))"
    unfolding execute_valid [OF v] g ep m1 l1
    by (simp add: fail_run_def exceeded_def str_int_1 WorkflowExecutor_init_def)
  have x2: "execute ?ex Map.empty Map.empty (Some 2) 7 =
     ((\<lparr>graph = single_graph,
        run = Some \<lparr>state = Map.empty, status = COMPLETED,
          logs = [\<lparr>node_name = ''a'', log_status = ''success'',
                   state_snapshot = Map.empty, log_error = None\<rparr>],
          completed_at = Some 7, error = None, visited_nodes = [''a'']\<rparr>\<rparr>, Map.empty),
      Inr \<lparr>state = Map.empty, status = COMPLETED,
          logs = [\<lparr>node_name = ''a'', log_status = ''success'',
                   state_snapshot = Map.empty, log_error = None\<rparr>],
          completed_at = Some 7, error = None, visited_nodes = [''a'']\<rparr>)"
    unfolding execute_valid [OF v] g ep m2 l2
    by (simp add: WorkflowExecutor_init_def)
  from a l1 x1 x2 show ?thesis by (intro conjI)
qed

text \<open>
  Claim C8, amended. The snapshot of a log entry is a copy of the top level of the run
  state (\<^verbatim>\<open>self.run.state.copy()\<close>): the entry a pass appends holds the bindings of the
  run state as that pass leaves it, references to nested containers included, so that
  what the snapshot shows under such a key is whatever the heap holds at that reference.
  Later passes only append to the log, and the run \<^verbatim>\<open>execute\<close> leaves has the log of the
  loop: the top-level bindings of a snapshot never change.
\<close>

theorem snapshot_is_shallow_copy:
  "(nodes g current = Some node_def \<and> loop_body g current (r, h) = ((r2, h2), out) \<longrightarrow>
      (\<exists>e. logs r2 = logs r @ [e] \<and> node_name e = current \<and> state_snapshot e = state r2 \<and>
           (\<forall>k a. state r2 k = Some (PRef a) \<longrightarrow>
              state_snapshot e k = Some (PRef a) \<and>
              (\<forall>h'. seen h' (state_snapshot e) k = h' a)))) \<and>
   prefix (logs r) (logs (fst (fst (exec_loop g mx (r, h) cur it)))) \<and>
   (fst (validate (graph ex)) \<longrightarrow>
      (\<exists>rf. get_current_run (fst (fst (execute ex h initial_state max_iterations now))) = Some rf \<and>
         logs rf =
           logs (fst (fst (exec_loop (graph ex) (or_default max_iterations MAX_ITERATIONS)
                   (WorkflowRun_init initial_state, h) (entry_point (graph ex)) 0)))))"
proof -
  have a: "\<exists>e. logs r2 = logs r @ [e] \<and> node_name e = current \<and> state_snapshot e = state r2 \<and>
           (\<forall>k a. state r2 k = Some (PRef a) \<longrightarrow>
              state_snapshot e k = Some (PRef a) \<and>
              (\<forall>h'. seen h' (state_snapshot e) k = h' a))"
    if n: "nodes g current = Some node_def"
      and lb: "loop_body g current (r, h) = ((r2, h2), out)"
  proof -
    obtain s h1 res where f: "func node_def (state r, h) = ((s, h1), res)"
      by (cases "func node_def (state r, h)") auto
    have "\<exists>e. logs r2 = logs r @ [e] \<and> node_name e = current \<and> state_snapshot e = state r2"
    proof (cases res)
      case (Inl x)
      with lb f show ?thesis by (auto simp: loop_body_raises [OF n])
    next
      case (Inr y)
      with lb f show ?thesis by (auto simp: loop_body_returns [OF n])
    qed
    then obtain e where e: "logs r2 = logs r @ [e]" "node_name e = current"
      "state_snapshot e = state r2"
      by blast
    have "\<forall>k a. state r2 k = Some (PRef a) \<longrightarrow>
              state_snapshot e k = Some (PRef a) \<and>
              (\<forall>h'. seen h' (state_snapshot e) k = h' a)"
      by (simp add: e seen_def)
    with e show ?thesis by blast
  qed
  have b: "prefix (logs r) (logs (fst (fst (exec_loop g mx (r, h) cur it))))"
    using exec_loop_prefix [of "(r, h)" g mx cur it] by simp
  have c: "\<exists>rf. get_current_run (fst (fst (execute ex h initial_state max_iterations now))) = Some rf \<and>
         logs rf =
           logs (fst (fst (exec_loop (graph ex) (or_default max_iterations MAX_ITERATIONS)
                   (WorkflowRun_init initial_state, h) (entry_point (graph ex)) 0)))"
    if "fst (validate (graph ex))"
    by (rule execute_run_logs [OF that])
  show ?thesis
    apply (intro conjI)
      apply (rule impI)
      apply (erule conjE)
      apply (erule (1) a)
     apply (rule b)
    apply (rule impI)
    apply (erule c)
    done
qed

theorem snapshot_is_shallow_copy_witness:
  "nodes shared_graph ''a'' = Some \<lparr>name = ''a'', func = make_list, description = []\<rparr> \<and>
   loop_body shared_graph ''a'' (WorkflowRun_init Map.empty, Map.empty) =
     ((\<lparr>state = [''xs'' \<mapsto> PRef 0], status = RUNNING,
        logs = [\<lparr>node_name = ''a'', log_status = ''success'',
                 state_snapshot = [''xs'' \<mapsto> PRef 0], log_error = None\<rparr>],
        completed_at = None, error = None, visited_nodes = [''a'']\<rparr>,
       [0 \<mapsto> OList [PInt 1]]),
      Inr (Some ''b'')) \<and>
   (\<exists>e. [\<lparr>node_name = ''a'', log_status = ''success'',
           state_snapshot = [''xs'' \<mapsto> PRef 0], log_error = None\<rparr>] = [e] \<and>
        node_name e = ''a'' \<and> state_snapshot e = [''xs'' \<mapsto> PRef 0] \<and>
        state_snapshot e ''xs'' = Some (PRef 0) \<and>
        seen [0 \<mapsto> OList [PInt 1, PInt 2]] (state_snapshot e) ''xs'' =
          Some (OList [PInt 1, PInt 2])) \<and>
   fst (validate (graph (WorkflowExecutor_init shared_graph))) \<and>
   (\<exists>rf. get_current_run (fst (fst (execute (WorkflowExecutor_init shared_graph) Map.empty
             Map.empty None 7))) = Some rf \<and>
      logs rf =
        [\<lparr>node_name = ''a'', log_status = ''success'',
          state_snapshot = [''xs'' \<mapsto> PRef 0], log_error = None\<rparr>,
         \<lparr>node_name = ''b'', log_status = ''success'',
          state_snapshot = [''xs'' \<mapsto> PRef 0], log_error = None\<rparr>])"
proof -
  let ?ex = "WorkflowExecutor_init shared_graph"
  let ?nd = "\<lparr>name = ''a'', func = make_list, description = []\<rparr>"
  let ?r2 = "\<lparr>state = [''xs'' \<mapsto> PRef 0], status = RUNNING,
        logs = [\<lparr>node_name = ''a'', log_status = ''success'',
                 state_snapshot = [''xs'' \<mapsto> PRef 0], log_error = None\<rparr>],
        completed_at = None, error = None, visited_nodes = [''a'']\<rparr>"
  note t = snapshot_is_shallow_copy [where g = shared_graph and current = "''a''"
      and node_def = ?nd and r = "WorkflowRun_init Map.empty" and h = Map.empty
      and ?r2.0 = ?r2 and ?h2.0 = "[0 \<mapsto> OList [PInt 1]]" and out = "Inr (Some ''b'')"
      and ex = ?ex and initial_state = Map.empty and max_iterations = None and now = 7
      and mx = 1000 and cur = "Some ''a''" and it = 0]
  have n: "nodes shared_graph ''a'' = Some ?nd"
    by (simp add: shared_graph_eq)
  have v: "fst (validate (graph ?ex))"
    by (simp add: WorkflowExecutor_init_def validate_def shared_graph_eq)
  have g: "graph ?ex = shared_graph" by (simp add: WorkflowExecutor_init_def)
  have ep: "entry_point shared_graph = Some ''a''"
    by (simp add: shared_graph_eq)
  have m: "or_default None MAX_ITERATIONS = 1000"
    by (simp add: or_default_def MAX_ITERATIONS_def)
  note t1 = t [THEN conjunct1, THEN mp, OF conjI [OF n loop_body_shared_a]]
  from t1 obtain e where e: "logs ?r2 = logs (WorkflowRun_init Map.empty) @ [e]"
      "node_name e = ''a''" "state_snapshot e = state ?r2"
      "\<forall>k a. state ?r2 k = Some (PRef a) \<longrightarrow>
          state_snapshot e k = Some (PRef a) \<and> (\<forall>h'. seen h' (state_snapshot e) k = h' a)"
    by blast
  have e1: "[\<lparr>node_name = ''a'', log_status = ''success'',
           state_snapshot = [''xs'' \<mapsto> PRef 0], log_error = None\<rparr>] = [e]"
    using e(1) by (simp add: WorkflowRun_init_def)
  have e3: "state_snapshot e = [''xs'' \<mapsto> PRef 0]"
    using e(3) by simp
  have k: "state ?r2 ''xs'' = Some (PRef 0)" by simp
  from e(4) [THEN spec, THEN spec, THEN mp, OF k]
  have e4: "state_snapshot e ''xs'' = Some (PRef 0)"
    and e5: "seen [0 \<mapsto> OList [PInt 1, PInt 2]] (state_snapshot e) ''xs'' =
          Some (OList [PInt 1, PInt 2])"
    by simp_all
  from e1 e(2) e3 e4 e5
  have p3: "\<exists>e. [\<lparr>node_name = ''a'', log_status = ''success'',
           state_snapshot = [''xs'' \<mapsto> PRef 0], log_error = None\<rparr>] = [e] \<and>
        node_name e = ''a'' \<and> state_snapshot e = [''xs'' \<mapsto> PRef 0] \<and>
        state_snapshot e ''xs'' = Some (PRef 0) \<and>
        seen [0 \<mapsto> OList [PInt 1, PInt 2]] (state_snapshot e) ''xs'' =
          Some (OList [PInt 1, PInt 2])"
    by blast
  note t3 = t [THEN conjunct2, THEN conjunct2, THEN mp, OF v]
  have p5: "\<exists>rf. get_current_run (fst (fst (execute ?ex Map.empty Map.empty None 7))) = Some rf \<and>
      logs rf =
        [\<lparr>node_name = ''a'', log_status = ''success'',
          state_snapshot = [''xs'' \<mapsto> PRef 0], log_error = None\<rparr>,
         \<lparr>node_name = ''b'', log_status = ''success'',
          state_snapshot = [''xs'' \<mapsto> PRef 0], log_error = None\<rparr>]"
    using t3 unfolding g ep m exec_loop_shared by simp
  from n loop_body_shared_a p3 v p5 show ?thesis by (intro conjI)
qed

text \<open>
  Claim C8 as stated, with snapshots that share no structure with the live state, does
  not hold. Node \<open>a\<close> stores a list under \<^verbatim>\<open>xs\<close> and node \<open>b\<close> appends to that list in
  place: the snapshot logged after \<open>a\<close> showed the list \<^verbatim>\<open>[1]\<close> when it was taken, and
  shows \<^verbatim>\<open>[1, 2]\<close> in the finished run.
\<close>

theorem snapshot_shares_nested_list:
  "loop_body shared_graph ''a'' (WorkflowRun_init Map.empty, Map.empty) =
     ((\<lparr>state = [''xs'' \<mapsto> PRef 0], status = RUNNING,
        logs = [\<lparr>node_name = ''a'', log_status = ''success'',
                 state_snapshot = [''xs'' \<mapsto> PRef 0], log_error = None\<rparr>],
        completed_at = None, error = None, visited_nodes = [''a'']\<rparr>,
       [0 \<mapsto> OList [PInt 1]]),
      Inr (Some ''b'')) \<and>
   seen [0 \<mapsto> OList [PInt 1]] [''xs'' \<mapsto> PRef 0] ''xs'' = Some (OList [PInt 1]) \<and>
   execute (WorkflowExecutor_init shared_graph) Map.empty Map.empty None 7 =
     ((\<lparr>graph = shared_graph,
        run = Some \<lparr>state = [''xs'' \<mapsto> PRef 0], status = COMPLETED,
          logs = [\<lparr>node_name = ''a'', log_status = ''success'',
                   state_snapshot = [''xs'' \<mapsto> PRef 0], log_error = None\<rparr>,
                  \<lparr>node_name = ''b'', log_status = ''success'',
                   state_snapshot = [''xs'' \<mapsto> PRef 0], log_error = None\<rparr>],
          completed_at = Some 7, error = None, visited_nodes = [''a'', ''b'']\<rparr>\<rparr>,
       [0 \<mapsto> OList [PInt 1, PInt 2]]),
      Inr \<lparr>state = [''xs'' \<mapsto> PRef 0], status = COMPLETED,
          logs = [\<lparr>node_name = ''a'', log_status = ''success'',
                   state_snapshot = [''xs'' \<mapsto> PRef 0], log_error = None\<rparr>,
                  \<lparr>node_name = ''b'', log_status = ''success'',
                   state_snapshot = [''xs'' \<mapsto> PRef 0], log_error = None\<rparr>],
          completed_at = Some 7, error = None, visited_nodes = [''a'', ''b'']\<rparr>) \<and>
   seen [0 \<mapsto> OList [PInt 1, PInt 2]] [''xs'' \<mapsto> PRef 0] ''xs'' =
     Some (OList [PInt 1, PInt 2]) \<and>
   seen [0 \<mapsto> OList [PInt 1, PInt 2]] [''xs'' \<mapsto> PRef 0] ''xs'' \<noteq>
     seen [0 \<mapsto> OList [PInt 1]] [''xs'' \<mapsto> PRef 0] ''xs''"
proof -
  let ?ex = "WorkflowExecutor_init shared_graph"
  have v: "fst (validate (graph ?ex))"
    by (simp add: WorkflowExecutor_init_def validate_def shared_graph_eq)
  have g: "graph ?ex = shared_graph" by (simp add: WorkflowExecutor_init_def)
  have ep: "entry_point shared_graph = Some ''a''"
    by (simp add: shared_graph_eq)
  have m: "or_default None MAX_ITERATIONS = 1000"
    by (simp add: or_default_def MAX_ITERATIONS_def)
  have s1: "seen [0 \<mapsto> OList [PInt 1]] [''xs'' \<mapsto> PRef 0] ''xs'' = Some (OList [PInt 1])"
    by (simp add: seen_def)
  have s2: "seen [0 \<mapsto> OList [PInt 1, PInt 2]] [''xs'' \<mapsto> PRef 0] ''xs'' =
     Some (OList [PInt 1, PInt 2])"
    by (simp add: seen_def)
  have s3: "seen [0 \<mapsto> OList [PInt 1, PInt 2]] [''xs'' \<mapsto> PRef 0] ''xs'' \<noteq>
     seen [0 \<mapsto> OList [PInt 1]] [''xs'' \<mapsto> PRef 0] ''xs''"
    by (simp add: seen_def)
  have x: "execute ?ex Map.empty Map.empty None 7 =
     ((\<lparr>graph = shared_graph,
        run = Some \<lparr>state = [''xs'' \<mapsto> PRef 0], status = COMPLETED,
          logs = [\<lparr>node_name = ''a'', log_status = ''success'',
                   state_snapshot = [''xs'' \<mapsto> PRef 0], log_error = None\<rparr>,
                  \<lparr>node_name = ''b'', log_status = ''success'',
                   state_snapshot = [''xs'' \<mapsto> PRef 0], log_error = None\<rparr>],
          completed_at = Some 7, error = None, visited_nodes = [''a'', ''b'']\<rparr>\<rparr>,
       [0 \<mapsto> OList [PInt 1, PInt 2]]),
      Inr \<lparr>state = [''xs'' \<mapsto> PRef 0], status = COMPLETED,
          logs = [\<lparr>node_name = ''a'', log_status = ''success'',
                   state_snapshot = [''xs'' \<mapsto> PRef 0], log_error = None\<rparr>,
                  \<lparr>node_name = ''b'', log_status = ''success'',
                   state_snapshot = [''xs'' \<mapsto> PRef 0], log_error = None\<rparr>],
          completed_at = Some 7, error = None, visited_nodes = [''a'', ''b'']\<rparr>)"
    unfolding execute_valid [OF v] g ep m exec_loop_shared
    by (simp add: WorkflowExecutor_init_def)
  from loop_body_shared_a s1 x s2 s3 show ?thesis by (intro conjI)
qed

text \<open>
  Claim C9, amended. A requested cap of 0 is replaced by the default cap of 1000, so that
  \<^verbatim>\<open>execute\<close> with \<^verbatim>\<open>max_iterations = 0\<close> is \<^verbatim>\<open>execute\<close> with no cap given: no call
  requests a run of zero steps. On a valid graph whose entry point is not the empty
  string, the call runs the entry node: the first entry of the log of the executor's
  current run is that node's, with the snapshot its function produced.
\<close>

theorem zero_cap_replaced_by_default:
  "or_default (Some 0) MAX_ITERATIONS = 1000 \<and>
   execute ex h initial_state (Some 0) now = execute ex h initial_state None now \<and>
   (fst (validate (graph ex)) \<and> entry_point (graph ex) \<noteq> Some [] \<longrightarrow>
      (\<exists>ep nd rf. entry_point (graph ex) = Some ep \<and> nodes (graph ex) ep = Some nd \<and>
         get_current_run (fst (fst (execute ex h initial_state (Some 0) now))) = Some rf \<and>
         logs rf \<noteq> [] \<and> node_name (hd (logs rf)) = ep \<and>
         state_snapshot (hd (logs rf)) =
           (case func nd (initial_state, h) of
              ((s, h1), Inl e) \<Rightarrow> s
            | ((s, h1), Inr res) \<Rightarrow> merge_result s h1 res)))"
proof -
  have a: "or_default (Some 0) MAX_ITERATIONS = 1000"
    by (simp add: or_default_def MAX_ITERATIONS_def)
  have d: "or_default (Some 0) MAX_ITERATIONS = or_default None MAX_ITERATIONS"
    by (simp add: or_default_def)
  have b: "execute ex h initial_state (Some 0) now = execute ex h initial_state None now"
    unfolding execute_def d by (rule refl)
  have c: "\<exists>ep nd rf. entry_point (graph ex) = Some ep \<and> nodes (graph ex) ep = Some nd \<and>
         get_current_run (fst (fst (execute ex h initial_state (Some 0) now))) = Some rf \<and>
         logs rf \<noteq> [] \<and> node_name (hd (logs rf)) = ep \<and>
         state_snapshot (hd (logs rf)) =
           (case func nd (initial_state, h) of
              ((s, h1), Inl e) \<Rightarrow> s
            | ((s, h1), Inr res) \<Rightarrow> merge_result s h1 res)"
    if v: "fst (validate (graph ex))" and ne: "entry_point (graph ex) \<noteq> Some []"
  proof -
    from v obtain ep nd where ep: "entry_point (graph ex) = Some ep"
      and n: "nodes (graph ex) ep = Some nd"
      by (auto simp: validate_def split: option.splits if_splits)
    from ne ep have ne': "ep \<noteq> []" by simp
    from exec_loop_first_log [OF n ne', of 0 1000 "WorkflowRun_init initial_state" h]
    obtain e es where l: "logs (fst (fst (exec_loop (graph ex) 1000
          (WorkflowRun_init initial_state, h) (Some ep) 0))) = e # es"
      and e: "node_name e = ep"
        "state_snapshot e =
           (case func nd (initial_state, h) of
              ((s, h1), Inl x) \<Rightarrow> s
            | ((s, h1), Inr res) \<Rightarrow> merge_result s h1 res)"
      by (auto simp: WorkflowRun_init_def)
    from execute_run_logs [OF v, of h initial_state "Some 0" now]
    obtain rf where rf: "get_current_run (fst (fst (execute ex h initial_state (Some 0) now))) = Some rf"
      and lg: "logs rf = e # es"
      by (auto simp: a ep l)
    from ep n rf lg e show ?thesis by simp
  qed
  show ?thesis
    apply (intro conjI)
      apply (rule a)
     apply (rule b)
    apply (rule impI)
    apply (erule conjE)
    apply (erule (1) c)
    done
qed

theorem zero_cap_replaced_by_default_witness:
  "fst (validate (graph (WorkflowExecutor_init single_graph))) \<and>
   entry_point (graph (WorkflowExecutor_init single_graph)) \<noteq> Some [] \<and>
   execute (WorkflowExecutor_init single_graph) Map.empty Map.empty (Some 0) 7 =
     execute (WorkflowExecutor_init single_graph) Map.empty Map.empty None 7 \<and>
   execute (WorkflowExecutor_init single_graph) Map.empty Map.empty (Some 0) 7 =
     ((\<lparr>graph = single_graph,
        run = Some \<lparr>state = Map.empty, status = COMPLETED,
          logs = [\<lparr>node_name = ''a'', log_status = ''success'',
                   state_snapshot = Map.empty, log_error = None\<rparr>],
          completed_at = Some 7, error = None, visited_nodes = [''a'']\<rparr>\<rparr>, Map.empty),
      Inr \<lparr>state = Map.empty, status = COMPLETED,
          logs = [\<lparr>node_name = ''a'', log_status = ''success'',
                   state_snapshot = Map.empty, log_error = None\<rparr>],
          completed_at = Some 7, error = None, visited_nodes = [''a'']\<rparr>) \<and>
   (\<exists>rf. get_current_run (fst (fst (execute (WorkflowExecutor_init single_graph) Map.empty
             Map.empty (Some 0) 7))) = Some rf \<and>
      logs rf \<noteq> [] \<and> node_name (hd (logs rf)) = ''a'')"
proof -
  let ?ex = "WorkflowExecutor_init single_graph"
  note t = zero_cap_replaced_by_default [where ex = ?ex and h = Map.empty
      and initial_state = Map.empty and now = 7]
  have v: "fst (validate (graph ?ex))"
    by (simp add: WorkflowExecutor_init_def validate_def single_graph_eq)
  have g: "graph ?ex = single_graph" by (simp add: WorkflowExecutor_init_def)
  have ep: "entry_point single_graph = Some ''a''"
    by (simp add: single_graph_eq)
  have ne: "entry_point (graph ?ex) \<noteq> Some []"
    unfolding g ep by simp
  have b: "execute ?ex Map.empty Map.empty (Some 0) 7 = execute ?ex Map.empty Map.empty None 7"
    by (rule t [THEN conjunct2, THEN conjunct1])
  have m: "or_default (Some 0) MAX_ITERATIONS = 1000"
    by (rule t [THEN conjunct1])
  have l: "exec_loop single_graph 1000 (WorkflowRun_init Map.empty, Map.empty) (Some ''a'') 0 =
     ((\<lparr>state = Map.empty, status = RUNNING,
        logs = [\<lparr>node_name = ''a'', log_status = ''success'',
                 state_snapshot = Map.empty, log_error = None\<rparr>],
        completed_at = None, error = None, visited_nodes = [''a'']\<rparr>, Map.empty),
      Inr (None, 1))"
    by (subst exec_loop_pass)
       (simp_all add: exec_loop_stop name_truthy_def loop_body_single WorkflowRun_init_def)
  have x: "execute ?ex Map.empty Map.empty (Some 0) 7 =
     ((\<lparr>graph = single_graph,
        run = Some \<lparr>state = Map.empty, status = COMPLETED,
          logs = [\<lparr>node_name = ''a'', log_status = ''success'',
                   state_snapshot = Map.empty, log_error = None\<rparr>],
          completed_at = Some 7, error = None, visited_nodes = [''a'']\<rparr>\<rparr>, Map.empty),
      Inr \<lparr>state = Map.empty, status = COMPLETED,
          logs = [\<lparr>node_name = ''a'', log_status = ''success'',
                   state_snapshot = Map.empty, log_error = None\<rparr>],
          completed_at = Some 7, error = None, visited_nodes = [''a'']\<rparr>)"
    unfolding execute_valid [OF v] g ep m l
    by (simp add: WorkflowExecutor_init_def)
  from t [THEN conjunct2, THEN conjunct2, THEN mp, OF conjI [OF v ne]]
  obtain ep' nd rf where q: "entry_point (graph ?ex) = Some ep'"
      "get_current_run (fst (fst (execute ?ex Map.empty Map.empty (Some 0) 7))) = Some rf"
      "logs rf \<noteq> []" "node_name (hd (logs rf)) = ep'"
    by blast
  from q(1) have "ep' = ''a''" unfolding g ep by simp
  with q have p: "\<exists>rf. get_current_run (fst (fst (execute ?ex Map.empty Map.empty (Some 0) 7))) = Some rf \<and>
      logs rf \<noteq> [] \<and> node_name (hd (logs rf)) = ''a''"
    by blast
  from v ne b x p show ?thesis by (intro conjI)
qed

text \<open>
  Claim C9 as stated, for every valid graph, does not hold. The graph whose only node is
  named by the empty string is valid, and its entry point is falsy in the loop test
  \<^verbatim>\<open>while current_node and ...\<close>: the run is completed with no node executed.
\<close>

theorem zero_cap_empty_entry_name_runs_nothing:
  "validate empty_name_graph = (True, []) \<and>
   or_default (Some 0) MAX_ITERATIONS = 1000 \<and>
   execute (WorkflowExecutor_init empty_name_graph) Map.empty Map.empty (Some 0) 7 =
     ((\<lparr>graph = empty_name_graph,
        run = Some \<lparr>state = Map.empty, status = COMPLETED, logs = [],
          completed_at = Some 7, error = None, visited_nodes = []\<rparr>\<rparr>, Map.empty),
      Inr \<lparr>state = Map.empty, status = COMPLETED, logs = [],
          completed_at = Some 7, error = None, visited_nodes = []\<rparr>)"
proof -
  let ?ex = "WorkflowExecutor_init empty_name_graph"
  have a: "validate empty_name_graph = (True, [])"
    by (simp add: validate_def empty_name_graph_eq)
  have v: "fst (validate (graph ?ex))"
    by (simp add: WorkflowExecutor_init_def a)
  have g: "graph ?ex = empty_name_graph" by (simp add: WorkflowExecutor_init_def)
  have ep: "entry_point empty_name_graph = Some []"
    by (simp add: empty_name_graph_eq)
  have m: "or_default (Some 0) MAX_ITERATIONS = 1000"
    by (simp add: or_default_def MAX_ITERATIONS_def)
  have l: "exec_loop empty_name_graph 1000 (WorkflowRun_init Map.empty, Map.empty) (Some []) 0 =
             ((WorkflowRun_init Map.empty, Map.empty), Inr (Some [], 0))"
    by (simp add: exec_loop_stop name_truthy_def)
  have x: "execute ?ex Map.empty Map.empty (Some 0) 7 =
     ((\<lparr>graph = empty_name_graph,
        run = Some \<lparr>state = Map.empty, status = COMPLETED, logs = [],
          completed_at = Some 7, error = None, visited_nodes = []\<rparr>\<rparr>, Map.empty),
      Inr \<lparr>state = Map.empty, status = COMPLETED, logs = [],
          completed_at = Some 7, error = None, visited_nodes = []\<rparr>)"
    unfolding execute_valid [OF v] g ep m l
    by (simp add: WorkflowExecutor_init_def WorkflowRun_init_def)
  from a m x show ?thesis by (intro conjI)
qed

end
